theory Spec2Isabelle
  imports Main "HOL-Library.Sublist" "HOL-Library.AList"
begin

section \<open>Strings and JavaScript values\<close>

text \<open>
  A JavaScript string is modelled by the bytes of its UTF-8 encoding (\<open>string\<close> is a list
  of 8-bit characters), which covers every well-formed string. \<open>String.prototype.includes\<close>
  is substring search.
\<close>

fun str_includes :: "string \<Rightarrow> string \<Rightarrow> bool" where
  "str_includes [] p = (p = [])"
| "str_includes (c # cs) p = (prefix p (c # cs) \<or> str_includes cs p)"

text \<open>
  Thrown values. Every error the program handles is an \<open>Error\<close> object and is read
  through its \<open>message\<close>; a \<open>TypeError\<close> is raised by the language itself.
\<close>

datatype js_error = Error string | TypeError string

fun message :: "js_error \<Rightarrow> string" where
  "message (Error m) = m"
| "message (TypeError m) = m"

subsection \<open>encodeURIComponent\<close>

text \<open>
  The platform's escaping function: letters, digits and \<open>- _ . ! ~ * ' ( )\<close> are kept, every
  other byte of the UTF-8 encoding becomes \<open>%XX\<close> with upper-case hexadecimal digits.
\<close>

definition uri_unreserved :: "char \<Rightarrow> bool" where
  "uri_unreserved c =
     (let n = (of_char c :: nat) in
        (65 \<le> n \<and> n \<le> 90) \<or> (97 \<le> n \<and> n \<le> 122) \<or> (48 \<le> n \<and> n \<le> 57) \<or>
        c \<in> set (''-_.!~*()'' @ [CHR 0x27]))"

definition hex_digit :: "nat \<Rightarrow> char" where
  "hex_digit n = (''0123456789ABCDEF'' ! (n mod 16))"

definition encode_byte :: "char \<Rightarrow> string" where
  "encode_byte c =
     (if uri_unreserved c then [c]
      else [CHR ''%'', hex_digit ((of_char c :: nat) div 16), hex_digit ((of_char c :: nat) mod 16)])"

definition encodeURIComponent :: "string \<Rightarrow> string" where
  "encodeURIComponent s = concat (map encode_byte s)"

subsection \<open>Plain objects used as dictionaries\<close>

text \<open>
  \<open>generateTableOfContents\<close> collects its groups in an object created by \<open>{}\<close>. Such an
  object has its own properties, kept here in creation order, and inherits the properties
  of \<open>Object.prototype\<close>. Reading \<open>acc[key]\<close> finds an own property first and an inherited
  one otherwise; \<open>Object.entries\<close> lists the own properties, those whose key is an array
  index first, in ascending numeric order, then the others in creation order.
\<close>

type_synonym 'v js_object = "(string \<times> 'v) list"

definition object_prototype_keys :: "string list" where
  "object_prototype_keys =
     [''constructor'', ''__defineGetter__'', ''__defineSetter__'', ''hasOwnProperty'',
      ''__lookupGetter__'', ''__lookupSetter__'', ''isPrototypeOf'', ''propertyIsEnumerable'',
      ''toString'', ''valueOf'', ''__proto__'', ''toLocaleString'']"

datatype 'v property = Own 'v | Inherited | Undefined

definition get_property :: "'v js_object \<Rightarrow> string \<Rightarrow> 'v property" where
  "get_property obj k =
     (case map_of obj k of
        Some v \<Rightarrow> Own v
      | None \<Rightarrow> if k \<in> set object_prototype_keys then Inherited else Undefined)"

definition is_digit :: "char \<Rightarrow> bool" where
  "is_digit c = (48 \<le> (of_char c :: nat) \<and> (of_char c :: nat) \<le> 57)"

definition index_value :: "string \<Rightarrow> nat" where
  "index_value s = foldl (\<lambda>n c. 10 * n + ((of_char c :: nat) - 48)) 0 s"

text \<open>
  An array index is the canonical decimal form of an integer from 0 to \<open>2^32 - 2\<close>:
  digits only, no leading zero.
\<close>

definition is_array_index :: "string \<Rightarrow> bool" where
  "is_array_index s =
     (s \<noteq> [] \<and> list_all is_digit s \<and> (if hd s = CHR ''0'' then s = ''0'' else True) \<and>
      index_value s < 4294967295)"

definition Object_entries :: "'v js_object \<Rightarrow> (string \<times> 'v) list" where
  "Object_entries obj =
     sort_key (\<lambda>kv. index_value (fst kv)) (filter (\<lambda>kv. is_array_index (fst kv)) obj) @
     filter (\<lambda>kv. \<not> is_array_index (fst kv)) obj"

section \<open>DocumentAssembler\<close>

record doc =
  doc_title :: string
  doc_content :: string
  doc_section :: string

record config =
  DEV_MODE :: bool
  DEV_PAGE_LIMIT :: nat
  BASE_URL :: string
  DOCS_URL :: string
  TIMEOUT :: nat
  OUTPUT_DIR :: string
  CACHE_DIR :: string
  USE_CACHE :: bool
  CACHE_VERSION :: string
  SELECTORS_panel :: string
  SELECTORS_iframe :: string

subsection \<open>generateTableOfContents\<close>

text \<open>
  \<open>doc.section || 'Reference'\<close>: the empty string is falsy.
\<close>

definition section_of :: "doc \<Rightarrow> string" where
  "section_of d = (if doc_section d = [] then ''Reference'' else doc_section d)"

text \<open>
  One step of the \<open>reduce\<close>:
  \<^verbatim>\<open>if (!acc[section]) acc[section] = []; acc[section].push(doc); return acc;\<close>
  An array (even an empty one) and an inherited property are truthy, so only a key that is
  neither own nor inherited gets a fresh array. An inherited property is not an array and
  has no \<open>push\<close>: the call raises a \<open>TypeError\<close>.
\<close>

definition reduce_step :: "doc list js_object \<Rightarrow> doc \<Rightarrow> js_error + doc list js_object" where
  "reduce_step acc d =
     (let section = section_of d;
          acc1 = (case get_property acc section of
                    Undefined \<Rightarrow> AList.update section [] acc
                  | _ \<Rightarrow> acc)
      in case get_property acc1 section of
           Own docs \<Rightarrow> Inr (AList.update section (docs @ [d]) acc1)
         | Inherited \<Rightarrow> Inl (TypeError ''acc[section].push is not a function'')
         | Undefined \<Rightarrow> Inl (TypeError ''Cannot read properties of undefined''))"

fun reduce_sections :: "doc list js_object \<Rightarrow> doc list \<Rightarrow> js_error + doc list js_object" where
  "reduce_sections acc [] = Inr acc"
| "reduce_sections acc (d # ds) =
     (case reduce_step acc d of
        Inl e \<Rightarrow> Inl e
      | Inr acc' \<Rightarrow> reduce_sections acc' ds)"

text \<open>
  The grouped table of contents before it is printed: the sections in the order of
  \<open>Object.entries\<close>, each with its records.
\<close>

definition toc_sections :: "doc list \<Rightarrow> js_error + (string \<times> doc list) list" where
  "toc_sections documentation =
     (case reduce_sections [] documentation of
        Inl e \<Rightarrow> Inl e
      | Inr sections \<Rightarrow> Inr (Object_entries sections))"

definition toc_item :: "doc \<Rightarrow> string" where
  \<open>toc_item d = concat
    [''\<newline>'',
     ''            <li>\<newline>'',
     ''              <a href="#'', encodeURIComponent (doc_title d), ''">'', doc_title d, ''</a>\<newline>'',
     ''            </li>\<newline>'',
     ''          '']\<close>

definition toc_section :: "string \<times> doc list \<Rightarrow> string" where
  \<open>toc_section entry = concat
    [''\<newline>'',
     ''      <h2>'', fst entry, ''</h2>\<newline>'',
     ''      <div class="subsection">\<newline>'',
     ''        <ul>\<newline>'',
     ''          '', concat (map toc_item (snd entry)), ''\<newline>'',
     ''        </ul>\<newline>'',
     ''      </div>\<newline>'',
     ''    '']\<close>

definition generateTableOfContents :: "doc list \<Rightarrow> js_error + string" where
  "generateTableOfContents documentation =
     (case toc_sections documentation of
        Inl e \<Rightarrow> Inl e
      | Inr entries \<Rightarrow> Inr (concat (map toc_section entries)))"

text \<open>
  The anchor targets the table of contents emits: the value interpolated after \<open>#\<close> in
  each \<open>href\<close>, in the order of printing.
\<close>

definition toc_anchors :: "doc list \<Rightarrow> js_error + string list" where
  "toc_anchors documentation =
     (case toc_sections documentation of
        Inl e \<Rightarrow> Inl e
      | Inr entries \<Rightarrow>
          Inr (concat (map (\<lambda>entry. map (\<lambda>d. encodeURIComponent (doc_title d)) (snd entry)) entries)))"

subsection \<open>generateContent\<close>

definition content_wrapper :: "doc \<Rightarrow> string" where
  \<open>content_wrapper d = concat
    [''\<newline>'',
     ''      <div class="manual" id="'', encodeURIComponent (doc_title d), ''">\<newline>'',
     ''        '', doc_content d, ''\<newline>'',
     ''      </div>\<newline>'',
     ''    '']\<close>

definition generateContent :: "doc list \<Rightarrow> string" where
  "generateContent documentation = concat (map content_wrapper documentation)"

text \<open>The wrapper ids the viewer emits: the value interpolated into each \<open>id\<close>.\<close>

definition content_ids :: "doc list \<Rightarrow> string list" where
  "content_ids documentation = map (\<lambda>d. encodeURIComponent (doc_title d)) documentation"

subsection \<open>The fixed chrome\<close>

definition generateHeader :: "config \<Rightarrow> string" where
  \<open>generateHeader cfg = concat
    [''\<newline>'',
     ''    <div id="header">\<newline>'',
     ''      <h1><a href="'', BASE_URL cfg, ''">three.js</a></h1>\<newline>'',
     ''      <div id="sections">\<newline>'',
     ''        <span class="selected">docs</span>\<newline>'',
     ''      </div>\<newline>'',
     ''      <div id="expandButton"></div>\<newline>'',
     ''    </div>\<newline>'',
     ''  '']\<close>

definition generateSearch :: string where
  \<open>generateSearch = concat
    [''\<newline>'',
     ''    <div id="inputWrapper">\<newline>'',
     ''      <input type="text" id="filterInput" placeholder="Search" autocorrect="off" autocapitalize="off" spellcheck="false" />\<newline>'',
     ''      <div id="clearSearchButton"></div>\<newline>'',
     ''    </div>\<newline>'',
     ''  '']\<close>

definition generateScript :: string where
  \<open>generateScript = concat
    [''\<newline>'',
     ''    <script>\<newline>'',
     ''      // Panel functionality\<newline>'',
     ''      const panel = document.getElementById('', [CHR 0x27], ''panel'', [CHR 0x27], '');\<newline>'',
     ''      const expandButton = document.getElementById('', [CHR 0x27], ''expandButton'', [CHR 0x27], '');\<newline>'',
     ''      const panelScrim = document.getElementById('', [CHR 0x27], ''panelScrim'', [CHR 0x27], '');\<newline>'',
     ''      const filterInput = document.getElementById('', [CHR 0x27], ''filterInput'', [CHR 0x27], '');\<newline>'',
     ''      const clearSearchButton = document.getElementById('', [CHR 0x27], ''clearSearchButton'', [CHR 0x27], '');\<newline>'',
     ''\<newline>'',
     ''      expandButton.onclick = function(event) {\<newline>'',
     ''        event.preventDefault();\<newline>'',
     ''        panel.classList.toggle('', [CHR 0x27], ''open'', [CHR 0x27], '');\<newline>'',
     ''      };\<newline>'',
     ''\<newline>'',
     ''      panelScrim.onclick = function(event) {\<newline>'',
     ''        event.preventDefault();\<newline>'',
     ''        panel.classList.toggle('', [CHR 0x27], ''open'', [CHR 0x27], '');\<newline>'',
     ''      };\<newline>'',
     ''\<newline>'',
     ''      filterInput.onfocus = function() {\<newline>'',
     ''        panel.classList.add('', [CHR 0x27], ''searchFocused'', [CHR 0x27], '');\<newline>'',
     ''      };\<newline>'',
     ''\<newline>'',
     ''      filterInput.onblur = function() {\<newline>'',
     ''        if (filterInput.value === '', [CHR 0x27], [CHR 0x27], '') {\<newline>'',
     ''          panel.classList.remove('', [CHR 0x27], ''searchFocused'', [CHR 0x27], '');\<newline>'',
     ''        }\<newline>'',
     ''      };\<newline>'',
     ''\<newline>'',
     ''      clearSearchButton.onclick = function() {\<newline>'',
     ''        filterInput.value = '', [CHR 0x27], [CHR 0x27], '';\<newline>'',
     ''        filterInput.focus();\<newline>'',
     ''      };\<newline>'',
     ''    </script>\<newline>'',
     ''  '']\<close>

definition generateHead :: "config \<Rightarrow> string" where
  \<open>generateHead cfg = concat
    [''\<newline>'',
     ''    <meta charset="UTF-8">\<newline>'',
     ''    <meta name="viewport" content="width=device-width, user-scalable=no, minimum-scale=1.0, maximum-scale=1.0">\<newline>'',
     ''    <title>Three.js Documentation</title>\<newline>'',
     ''    <link rel="shortcut icon" href="'', BASE_URL cfg, ''/files/favicon_white.ico" media="(prefers-color-scheme: dark)"/>\<newline>'',
     ''    <link rel="shortcut icon" href="'', BASE_URL cfg, ''/files/favicon.ico" media="(prefers-color-scheme: light)" />\<newline>'',
     ''    <link rel="stylesheet" type="text/css" href="'', BASE_URL cfg, ''/docs/page.css">\<newline>'',
     ''    <script src="https://cdn.jsdelivr.net/gh/google/code-prettify@master/loader/run_prettify.js"></script>\<newline>'',
     ''  '']\<close>

definition generateBody :: "config \<Rightarrow> doc list \<Rightarrow> js_error + string" where
  \<open>generateBody cfg documentation =
    (case generateTableOfContents documentation of
       Inl e \<Rightarrow> Inl e
     | Inr toc \<Rightarrow> Inr (concat
        [''\<newline>'',
         ''    <div id="panel">\<newline>'',
         ''      '', generateHeader cfg, ''\<newline>'',
         ''      <div id="panelScrim"></div>\<newline>'',
         ''      <div id="contentWrapper">\<newline>'',
         ''        '', generateSearch, ''\<newline>'',
         ''        <div id="content">\<newline>'',
         ''          '', toc, ''\<newline>'',
         ''        </div>\<newline>'',
         ''      </div>\<newline>'',
         ''    </div>\<newline>'',
         ''    <div id="viewer">\<newline>'',
         ''      '', generateContent documentation, ''\<newline>'',
         ''    </div>\<newline>'',
         ''    '', generateScript, ''\<newline>'',
         ''  '']))\<close>

definition generateHTML :: "config \<Rightarrow> doc list \<Rightarrow> js_error + string" where
  \<open>generateHTML cfg documentation =
    (case generateBody cfg documentation of
       Inl e \<Rightarrow> Inl e
     | Inr body \<Rightarrow> Inr (concat
        [''\<newline>'',
         ''    <!DOCTYPE html>\<newline>'',
         ''    <html lang="en">\<newline>'',
         ''      <head>\<newline>'',
         ''        '', generateHead cfg, ''\<newline>'',
         ''      </head>\<newline>'',
         ''      <body>\<newline>'',
         ''        '', body, ''\<newline>'',
         ''      </body>\<newline>'',
         ''    </html>\<newline>'',
         ''  '']))\<close>

text \<open>The configuration object of the source.\<close>

definition default_config :: config where
  "default_config =
     \<lparr>DEV_MODE = False, DEV_PAGE_LIMIT = 10, BASE_URL = ''https://threejs.org'',
      DOCS_URL = ''https://threejs.org/docs/index.html#manual/en/introduction/Creating-a-scene'',
      TIMEOUT = 30000, OUTPUT_DIR = ''docs'', CACHE_DIR = ''.cache'', USE_CACHE = True,
      CACHE_VERSION = ''1'', SELECTORS_panel = ''#panel'', SELECTORS_iframe = ''iframe''\<rparr>"

section \<open>Values read from and written to the cache\<close>

text \<open>
  What \<open>JSON.parse\<close> can return. An object is given by its own properties. A number is kept
  as an integer: the program looks at a cached value only through its truthiness and its
  \<open>content\<close> property.
\<close>

datatype json =
    JNull
  | JBool bool
  | JNum int
  | JStr string
  | JArr "json list"
  | JObj "(string \<times> json) list"

fun truthy :: "json \<Rightarrow> bool" where
  "truthy JNull = False"
| "truthy (JBool b) = b"
| "truthy (JNum n) = (n \<noteq> 0)"
| "truthy (JStr s) = (s \<noteq> [])"
| "truthy (JArr xs) = True"
| "truthy (JObj ps) = True"

text \<open>
  The platform the program runs on: the digest, the JSON codec, the conversion of a value
  to a string inside a template literal, and the outcome of the file operations that can
  fail. \<open>JSON_parse\<close> returns \<open>None\<close> where \<open>JSON.parse\<close> throws a \<open>SyntaxError\<close>.
\<close>

record env =
  md5_hex :: "string \<Rightarrow> string"
  JSON_parse :: "string \<Rightarrow> json option"
  JSON_stringify :: "json \<Rightarrow> string"
  ToString :: "json \<Rightarrow> string"
  writeFile_fails :: "string \<Rightarrow> bool"
  mkdir_fails :: "string \<Rightarrow> bool"
  rm_fails :: "string \<Rightarrow> bool"
  launch_fails :: "string option"

subsection \<open>The browser session\<close>

text \<open>
  Every call on the page and on the frame inside it is recorded. The session answers a
  call from the calls made so far, so that a second attempt may meet another answer than
  the first. A \<open>string option\<close> answer is \<open>Some m\<close> when the call rejects with an error of
  message \<open>m\<close>; a sum answers \<open>Inl m\<close> then. \<open>page.$\<close> and \<open>contentFrame\<close> answer whether a
  handle (not \<open>null\<close>) came back. \<open>frame_evaluate\<close> answers with the serialised content region
  the in-page function found and processed (\<open>innerHTML\<close>, \<open>textContent\<close>), \<open>None\<close> when
  \<open>findContent\<close> found no region.
\<close>

datatype call =
    Goto string
  | WaitForSelector string
  | Evaluate
  | Query string
  | ContentFrame
  | FrameWaitForSelector string
  | FrameEvaluate

record link =
  link_url :: string
  link_text :: string
  link_path :: string
  link_section :: string

record browser =
  goto :: "call list \<Rightarrow> string \<Rightarrow> string option"
  waitForSelector :: "call list \<Rightarrow> string \<Rightarrow> string option"
  evaluate :: "call list \<Rightarrow> string + link list"
  query :: "call list \<Rightarrow> string \<Rightarrow> string + bool"
  contentFrame :: "call list \<Rightarrow> string + bool"
  frame_waitForSelector :: "call list \<Rightarrow> string \<Rightarrow> string option"
  frame_evaluate :: "call list \<Rightarrow> string + (string \<times> string) option"

subsection \<open>The state the program changes\<close>

text \<open>
  A file is missing, present but unreadable, or holds text. A write that succeeds leaves
  the file holding the text written. \<open>calls\<close> is the log of the browser session,
  \<open>sleeps\<close> the delays waited for, \<open>written\<close> the paths of the successful \<open>fs.writeFile\<close>
  calls and \<open>extracted\<close> the (url, title) of every call of \<open>extractContent\<close>, each oldest
  first.
\<close>

datatype file_state = Missing | Unreadable | Data string

record world =
  files :: "string \<Rightarrow> file_state"
  calls :: "call list"
  sleeps :: "nat list"
  written :: "string list"
  extracted :: "(string \<times> string) list"
  closed :: bool

definition readFile :: "world \<Rightarrow> string \<Rightarrow> js_error + string" where
  "readFile w p =
     (case files w p of
        Data d \<Rightarrow> Inr d
      | Missing \<Rightarrow> Inl (Error ''ENOENT: no such file or directory'')
      | Unreadable \<Rightarrow> Inl (Error ''EACCES: permission denied''))"

definition writeFile :: "env \<Rightarrow> world \<Rightarrow> string \<Rightarrow> string \<Rightarrow> js_error + world" where
  "writeFile e w p d =
     (if writeFile_fails e p then Inl (Error ''write failed'')
      else Inr (w\<lparr>files := (files w)(p := Data d), written := written w @ [p]\<rparr>))"

definition mkdir :: "env \<Rightarrow> world \<Rightarrow> string \<Rightarrow> js_error + world" where
  "mkdir e w p = (if mkdir_fails e p then Inl (Error ''mkdir failed'') else Inr w)"

text \<open>\<open>fs.rm(dir, {recursive: true, force: true})\<close>: every file below the directory goes.\<close>

definition rm :: "env \<Rightarrow> world \<Rightarrow> string \<Rightarrow> js_error + world" where
  "rm e w dir =
     (if rm_fails e dir then Inl (Error ''rm failed'')
      else Inr (w\<lparr>files := (\<lambda>p. if prefix (dir @ ''/'') p then Missing else files w p)\<rparr>))"

section \<open>CacheStore\<close>

text \<open>
  \<open>path.join(dir, name)\<close> for a directory name and a file name made of a hexadecimal
  digest and a suffix.
\<close>

definition path_join :: "string \<Rightarrow> string \<Rightarrow> string" where
  "path_join dir name = dir @ ''/'' @ name"

definition getCacheKey :: "env \<Rightarrow> config \<Rightarrow> string \<Rightarrow> string" where
  "getCacheKey e cfg url =
     path_join (CACHE_DIR cfg) (md5_hex e url @ ''_v'' @ CACHE_VERSION cfg @ ''.json'')"

text \<open>
  The body of the \<open>try\<close> of \<open>getFromCache\<close>: reading the file and parsing it can each throw.
\<close>

definition getFromCache_try :: "env \<Rightarrow> config \<Rightarrow> world \<Rightarrow> string \<Rightarrow> js_error + json" where
  "getFromCache_try e cfg w url =
     (case readFile w (getCacheKey e cfg url) of
        Inl err \<Rightarrow> Inl err
      | Inr d \<Rightarrow>
          (case JSON_parse e d of
             None \<Rightarrow> Inl (Error ''SyntaxError'')
           | Some v \<Rightarrow> Inr v))"

text \<open>\<open>getFromCache\<close>: \<open>Inr JNull\<close> is the promise resolved with \<open>null\<close>.\<close>

definition getFromCache :: "env \<Rightarrow> config \<Rightarrow> world \<Rightarrow> string \<Rightarrow> js_error + json" where
  "getFromCache e cfg w url =
     (if \<not> USE_CACHE cfg then Inr JNull
      else (case getFromCache_try e cfg w url of
              Inr v \<Rightarrow> Inr v
            | Inl err \<Rightarrow> Inr JNull))"

text \<open>\<open>saveToCache\<close>: a failed write is logged and the promise resolves all the same.\<close>

definition saveToCache :: "env \<Rightarrow> config \<Rightarrow> world \<Rightarrow> string \<Rightarrow> json \<Rightarrow> world" where
  "saveToCache e cfg w url d =
     (if \<not> USE_CACHE cfg then w
      else (case writeFile e w (getCacheKey e cfg url) (JSON_stringify e d) of
              Inr w' \<Rightarrow> w'
            | Inl err \<Rightarrow> w))"

definition initializeCache :: "env \<Rightarrow> config \<Rightarrow> bool \<Rightarrow> world \<Rightarrow> (js_error + unit) \<times> world" where
  "initializeCache e cfg CLEAR_CACHE w =
     (let w1 = (if CLEAR_CACHE
                then (case rm e w (CACHE_DIR cfg) of Inr w' \<Rightarrow> w' | Inl err \<Rightarrow> w)
                else w)
      in case mkdir e w1 (CACHE_DIR cfg) of
           Inl err \<Rightarrow> (Inl err, w1)
         | Inr w2 \<Rightarrow> (Inr (), w2))"

section \<open>LinkDiscovery\<close>

definition record_call :: "call \<Rightarrow> world \<Rightarrow> world" where
  "record_call c w = w\<lparr>calls := calls w @ [c]\<rparr>"

definition maxRetries :: nat where
  "maxRetries = 2"

text \<open>The body of the \<open>try\<close> of \<open>extractLinks\<close>: navigate, wait for the panel, evaluate.\<close>

definition links_attempt :: "config \<Rightarrow> browser \<Rightarrow> world \<Rightarrow> (js_error + link list) \<times> world" where
  "links_attempt cfg page w =
     (let w1 = record_call (Goto (DOCS_URL cfg)) w in
      case goto page (calls w) (DOCS_URL cfg) of
        Some m \<Rightarrow> (Inl (Error m), w1)
      | None \<Rightarrow>
          (let w2 = record_call (WaitForSelector (SELECTORS_panel cfg)) w1 in
           case waitForSelector page (calls w1) (SELECTORS_panel cfg) of
             Some m \<Rightarrow> (Inl (Error m), w2)
           | None \<Rightarrow>
               (let w3 = record_call Evaluate w2 in
                case evaluate page (calls w2) of
                  Inl m \<Rightarrow> (Inl (Error m), w3)
                | Inr links \<Rightarrow> (Inr links, w3))))"

text \<open>
  The \<open>while\<close> loop of \<open>extractLinks\<close>, from a given value of \<open>attempts\<close>. The result holds
  the outcome, the final value of \<open>attempts\<close> and the state. A loop left without a
  \<open>return\<close> makes the function return \<open>undefined\<close> (\<open>Inr None\<close>).
\<close>

function extractLinks_loop ::
  "config \<Rightarrow> browser \<Rightarrow> nat \<Rightarrow> world \<Rightarrow> (js_error + link list option) \<times> nat \<times> world" where
  "extractLinks_loop cfg page attempts w =
     (if attempts < maxRetries then
        (case links_attempt cfg page w of
           (Inr links, w1) \<Rightarrow> (Inr (Some links), attempts, w1)
         | (Inl err, w1) \<Rightarrow>
             if str_includes (message err) ''429''
             then (Inl (Error ''Rate limit exceeded''), attempts, w1)
             else if attempts + 1 = maxRetries then (Inl err, attempts + 1, w1)
             else extractLinks_loop cfg page (attempts + 1) (w1\<lparr>sleeps := sleeps w1 @ [1000]\<rparr>))
      else (Inr None, attempts, w))"
  by pat_completeness auto
termination
  by (relation "measure (\<lambda>(cfg, page, attempts, w). maxRetries - attempts)") auto

definition extractLinks ::
  "config \<Rightarrow> browser \<Rightarrow> world \<Rightarrow> (js_error + link list option) \<times> nat \<times> world" where
  "extractLinks cfg page w = extractLinks_loop cfg page 0 w"

section \<open>ContentExtractor\<close>

subsection \<open>The function evaluated in the frame\<close>

definition malformedPatterns :: "string list" where
  "malformedPatterns = [''</div></p>'', ''<p></div>'', ''<div></p>'']"

definition hasMalformedHTML :: "string \<Rightarrow> bool" where
  "hasMalformedHTML innerHTML = list_ex (\<lambda>pattern. str_includes innerHTML pattern) malformedPatterns"

datatype frame_result =
    NoContentFound
  | FrameContent (result_html: string) (result_text: string) (result_hasMalformedHTML: bool)

text \<open>
  What the in-page function returns, from the serialised content region after
  \<open>processCodeBlocks\<close> and \<open>fixRelativePaths\<close>: \<open>{error: 'No content found'}\<close> when there is
  no region, \<open>{html, text, hasMalformedHTML}\<close> otherwise.
\<close>

fun extractFrameContent :: "(string \<times> string) option \<Rightarrow> frame_result" where
  "extractFrameContent None = NoContentFound"
| "extractFrameContent (Some (innerHTML, textContent)) =
     FrameContent innerHTML textContent (hasMalformedHTML innerHTML)"

subsection \<open>processCodeBlocks\<close>

text \<open>
  The elements of the content region: tag name (upper case, as \<open>tagName\<close> gives it), class
  attribute, the \<open>white-space\<close> of the inline style, and the child elements. An element is
  addressed by the path of child positions that leads to it from the region's root.
\<close>

datatype element =
  Element (tagName: string) (className: string) (whiteSpace: string) (childElements: "element list")

fun element_at :: "element \<Rightarrow> nat list \<Rightarrow> element option" where
  "element_at el [] = Some el"
| "element_at el (i # p) =
     (if i < length (childElements el) then element_at (childElements el ! i) p else None)"

fun modify_at :: "nat list \<Rightarrow> (element \<Rightarrow> element) \<Rightarrow> element \<Rightarrow> element" where
  "modify_at [] f el = f el"
| "modify_at (i # p) f el =
     (if i < length (childElements el)
      then Element (tagName el) (className el) (whiteSpace el)
             ((childElements el)[i := modify_at p f (childElements el ! i)])
      else el)"

text \<open>The paths of an element and its descendants in document order, the element first.\<close>

fun subtree_paths :: "element \<Rightarrow> nat list list"
  and children_paths :: "nat \<Rightarrow> element list \<Rightarrow> nat list list" where
  "subtree_paths (Element t c s cs) = [] # children_paths 0 cs"
| "children_paths i [] = []"
| "children_paths i (c # cs) = map ((#) i) (subtree_paths c) @ children_paths (Suc i) cs"

definition has_tag :: "element \<Rightarrow> string list \<Rightarrow> nat list \<Rightarrow> bool" where
  "has_tag root tags p = (case element_at root p of Some el \<Rightarrow> tagName el \<in> set tags | None \<Rightarrow> False)"

text \<open>
  \<open>el.querySelectorAll\<close> and \<open>el.querySelector\<close> for a list of tag names: the descendants
  with one of the tags in document order, and the first of them.
\<close>

definition querySelectorAll :: "element \<Rightarrow> string list \<Rightarrow> nat list list" where
  "querySelectorAll el tags = filter (has_tag el tags) (tl (subtree_paths el))"

definition querySelector :: "element \<Rightarrow> string list \<Rightarrow> nat list option" where
  "querySelector el tags = List.find (has_tag el tags) (tl (subtree_paths el))"

definition is_word_char :: "char \<Rightarrow> bool" where
  "is_word_char c =
     (let n = (of_char c :: nat) in
        (65 \<le> n \<and> n \<le> 90) \<or> (97 \<le> n \<and> n \<le> 122) \<or> (48 \<le> n \<and> n \<le> 57) \<or> c = CHR ''_'')"

text \<open>
  \<open>className.match(/language-(\w+)/)?.[1]\<close>: the word after the leftmost \<open>language-\<close>
  that a word character follows.
\<close>

fun match_language :: "string \<Rightarrow> string option" where
  "match_language [] = None"
| "match_language (c # cs) =
     (if prefix ''language-'' (c # cs) \<and> takeWhile is_word_char (drop 9 (c # cs)) \<noteq> []
      then Some (takeWhile is_word_char (drop 9 (c # cs)))
      else match_language cs)"

definition set_class :: "string \<Rightarrow> element \<Rightarrow> element" where
  "set_class cls el = Element (tagName el) cls ''pre'' (childElements el)"

text \<open>
  The body of the \<open>forEach\<close> for the element at path \<open>p\<close> of the region \<open>content\<close>:
  \<^verbatim>\<open>if (el.tagName === 'PRE') {
    const code = el.querySelector('code') || el;
    const language = code.className?.match(/language-(\w+)/)?.[1] || 'javascript';
    code.className = `prettyprint lang-${language}`; code.style.whiteSpace = 'pre';
  } else if (el.tagName === 'CODE' && !el.parentElement.matches('pre')) {
    el.className = 'inline'; el.style.whiteSpace = 'pre';
  }\<close>
\<close>

definition process_element :: "nat list \<Rightarrow> element \<Rightarrow> element" where
  "process_element p content =
     (case element_at content p of
        None \<Rightarrow> content
      | Some el \<Rightarrow>
          if tagName el = ''PRE'' then
            (let code = (case querySelector el [''CODE''] of Some q \<Rightarrow> p @ q | None \<Rightarrow> p);
                 language =
                   (case Option.bind (element_at content code) (\<lambda>c. match_language (className c)) of
                      Some l \<Rightarrow> l
                    | None \<Rightarrow> ''javascript'')
             in modify_at code (set_class (''prettyprint lang-'' @ language)) content)
          else if tagName el = ''CODE'' \<and> \<not> has_tag content [''PRE''] (butlast p)
          then modify_at p (set_class ''inline'') content
          else content)"

definition processCodeBlocks :: "element \<Rightarrow> element" where
  "processCodeBlocks content =
     foldl (\<lambda>dom p. process_element p dom) content (querySelectorAll content [''PRE'', ''CODE''])"

subsection \<open>extractContent\<close>

text \<open>The part of \<open>extractContent\<close> after a cache miss.\<close>

definition fetch_content ::
  "env \<Rightarrow> config \<Rightarrow> browser \<Rightarrow> world \<Rightarrow> string \<Rightarrow> string \<Rightarrow> (js_error + json) \<times> world" where
  "fetch_content e cfg page w url title =
     (let w1 = record_call (Goto url) w in
      case goto page (calls w) url of
        Some m \<Rightarrow> (Inl (Error m), w1)
      | None \<Rightarrow>
     (let w2 = record_call (WaitForSelector (SELECTORS_iframe cfg)) w1 in
      case waitForSelector page (calls w1) (SELECTORS_iframe cfg) of
        Some m \<Rightarrow> (Inl (Error (''Timeout waiting for iframe: '' @ m)), w2)
      | None \<Rightarrow>
     (let w3 = record_call (Query (SELECTORS_iframe cfg)) w2 in
      case query page (calls w2) (SELECTORS_iframe cfg) of
        Inl m \<Rightarrow> (Inl (Error m), w3)
      | Inr False \<Rightarrow> (Inl (Error ''No iframe found''), w3)
      | Inr True \<Rightarrow>
     (let w4 = record_call ContentFrame w3 in
      case contentFrame page (calls w3) of
        Inl m \<Rightarrow> (Inl (Error m), w4)
      | Inr False \<Rightarrow> (Inl (Error ''Failed to get iframe content''), w4)
      | Inr True \<Rightarrow>
     (let w5 = record_call (FrameWaitForSelector ''body'') w4 in
      case frame_waitForSelector page (calls w4) ''body'' of
        Some m \<Rightarrow> (Inl (Error m), w5)
      | None \<Rightarrow>
     (let w6 = record_call FrameEvaluate w5 in
      case frame_evaluate page (calls w5) of
        Inl m \<Rightarrow> (Inl (Error m), w6)
      | Inr region \<Rightarrow>
          (case extractFrameContent region of
             NoContentFound \<Rightarrow> (Inl (Error ''No content found''), w6)
           | FrameContent html txt malformed \<Rightarrow>
               (let result = JObj [(''title'', JStr title), (''content'', JStr html),
                                   (''hasMalformedHTML'', JBool malformed)]
                in (Inr result, saveToCache e cfg w6 url result)))))))))"

definition extractContent ::
  "env \<Rightarrow> config \<Rightarrow> browser \<Rightarrow> world \<Rightarrow> string \<Rightarrow> string \<Rightarrow> (js_error + json) \<times> world" where
  "extractContent e cfg page w url title =
     (let w0 = w\<lparr>extracted := extracted w @ [(url, title)]\<rparr> in
      case getFromCache e cfg w0 url of
        Inl err \<Rightarrow> (Inl err, w0)
      | Inr cached \<Rightarrow>
          if truthy cached then (Inr cached, w0)
          else fetch_content e cfg page w0 url title)"

section \<open>PipelineOrchestrator\<close>

text \<open>
  \<open>content.content\<close> as it is printed by the template of \<open>generateContent\<close>: a value without
  that property prints \<open>undefined\<close>, a property that is no string prints as the platform
  converts it.
\<close>

definition content_property :: "env \<Rightarrow> json \<Rightarrow> string" where
  "content_property e v =
     (case v of
        JObj ps \<Rightarrow>
          (case map_of ps ''content'' of
             Some (JStr s) \<Rightarrow> s
           | Some x \<Rightarrow> ToString e x
           | None \<Rightarrow> ''undefined'')
      | _ \<Rightarrow> ''undefined'')"

text \<open>The \<open>for\<close> loop over \<open>pagesToProcess\<close>; a page that fails ends the loop.\<close>

fun extract_pages ::
  "env \<Rightarrow> config \<Rightarrow> browser \<Rightarrow> link list \<Rightarrow> doc list \<Rightarrow> world \<Rightarrow> (js_error + doc list) \<times> world" where
  "extract_pages e cfg page [] documentation w = (Inr documentation, w)"
| "extract_pages e cfg page (l # ls) documentation w =
     (case extractContent e cfg page w (link_url l) (link_text l) of
        (Inl err, w1) \<Rightarrow> (Inl err, w1)
      | (Inr content, w1) \<Rightarrow>
          extract_pages e cfg page ls
            (documentation @
               [\<lparr>doc_title = link_text l, doc_content = content_property e content,
                 doc_section = (if link_section l = [] then ''Reference'' else link_section l)\<rparr>])
            w1)"

definition pagesToProcess :: "config \<Rightarrow> link list \<Rightarrow> link list" where
  "pagesToProcess cfg links = (if DEV_MODE cfg then take (DEV_PAGE_LIMIT cfg) links else links)"

text \<open>The \<open>try\<close> block of \<open>scrapeDocumentation\<close> once the page is there.\<close>

definition scrape_pages ::
  "env \<Rightarrow> config \<Rightarrow> browser \<Rightarrow> world \<Rightarrow> (js_error + unit) \<times> world" where
  "scrape_pages e cfg page w =
     (case extractLinks cfg page w of
        (Inl err, attempts, w1) \<Rightarrow> (Inl err, w1)
      | (Inr None, attempts, w1) \<Rightarrow> (Inl (TypeError ''Cannot read properties of undefined''), w1)
      | (Inr (Some links), attempts, w1) \<Rightarrow>
          (case extract_pages e cfg page (pagesToProcess cfg links) [] w1 of
             (Inl err, w2) \<Rightarrow> (Inl err, w2)
           | (Inr documentation, w2) \<Rightarrow>
               (case generateHTML cfg documentation of
                  Inl err \<Rightarrow> (Inl err, w2)
                | Inr html \<Rightarrow>
                    (case mkdir e w2 (OUTPUT_DIR cfg) of
                       Inl err \<Rightarrow> (Inl err, w2)
                     | Inr w3 \<Rightarrow>
                         (case writeFile e w3 (path_join (OUTPUT_DIR cfg) ''index.html'') html of
                            Inl err \<Rightarrow> (Inl err, w3)
                          | Inr w4 \<Rightarrow> (Inr (), w4))))))"

text \<open>
  \<open>scrapeDocumentation(testPage)\<close>. \<open>CLEAR_CACHE\<close> is the command-line flag; \<open>testPage\<close> says
  whether the caller supplied the page, otherwise a browser is launched and closed at the
  end.
\<close>

definition scrapeDocumentation ::
  "env \<Rightarrow> config \<Rightarrow> bool \<Rightarrow> bool \<Rightarrow> browser \<Rightarrow> world \<Rightarrow> (js_error + unit) \<times> world" where
  "scrapeDocumentation e cfg CLEAR_CACHE testPage page w =
     (case initializeCache e cfg CLEAR_CACHE w of
        (Inl err, w1) \<Rightarrow> (Inl err, w1)
      | (Inr ok, w1) \<Rightarrow>
          if CLEAR_CACHE then (Inr (), w1)
          else if testPage then scrape_pages e cfg page w1
          else (case launch_fails e of
                  Some m \<Rightarrow> (Inl (Error m), w1)
                | None \<Rightarrow>
                    (case scrape_pages e cfg page w1 of
                       (r, w2) \<Rightarrow> (r, w2\<lparr>closed := True\<rparr>))))"

section \<open>Example inputs\<close>

text \<open>
  A cached page and its JSON text, a platform whose JSON codec knows that page and the
  empty object, an empty state, a state whose cache holds the page for every key, browser
  sessions (every call fails; rate limited; a timeout, then rate limited; every call
  succeeds; the first navigation fails), a discovered link and one whose section is
  \<open>constructor\<close>, the configuration in reduced mode, three records and a content region.
\<close>

definition example_page :: json where
  "example_page = JObj [(''title'', JStr ''Cached Page''), (''content'', JStr ''<div>Cached content</div>''),
                        (''hasMalformedHTML'', JBool False)]"

definition example_page_json :: string where
  \<open>example_page_json = concat
    [''{\<newline>'',
     ''  "title": "Cached Page",\<newline>'',
     ''  "content": "<div>Cached content</div>",\<newline>'',
     ''  "hasMalformedHTML": false\<newline>'',
     ''}'']\<close>

definition example_env :: env where
  "example_env =
     \<lparr>md5_hex = (\<lambda>url. ''0cc175b9c0f1b6a831c399e269772661''),
      JSON_parse = (\<lambda>s. if s = example_page_json then Some example_page
                         else if s = ''{}'' then Some (JObj []) else None),
      JSON_stringify = (\<lambda>v. if v = example_page then example_page_json else ''{}''),
      ToString = (\<lambda>v. ''[object Object]''),
      writeFile_fails = (\<lambda>p. False), mkdir_fails = (\<lambda>p. False), rm_fails = (\<lambda>p. False),
      launch_fails = None\<rparr>"

definition empty_world :: world where
  "empty_world = \<lparr>files = (\<lambda>p. Missing), calls = [], sleeps = [], written = [], extracted = [],
                   closed = False\<rparr>"

definition cached_world :: world where
  "cached_world = empty_world\<lparr>files := (\<lambda>p. Data example_page_json)\<rparr>"

definition failing_browser :: browser where
  "failing_browser =
     \<lparr>goto = (\<lambda>cs url. Some ''net::ERR_FAILED''), waitForSelector = (\<lambda>cs sel. Some ''timeout''),
      evaluate = (\<lambda>cs. Inl ''Execution context was destroyed''),
      query = (\<lambda>cs sel. Inr False), contentFrame = (\<lambda>cs. Inr False),
      frame_waitForSelector = (\<lambda>cs sel. Some ''timeout''),
      frame_evaluate = (\<lambda>cs. Inl ''Execution context was destroyed'')\<rparr>"

definition rate_limited_browser :: browser where
  "rate_limited_browser = failing_browser\<lparr>goto := (\<lambda>cs url. Some ''429'')\<rparr>"

definition timeout_then_429 :: browser where
  "timeout_then_429 =
     failing_browser\<lparr>goto := (\<lambda>cs url. if cs = [] then Some ''Navigation timeout of 30000 ms exceeded''
                                      else Some ''net::ERR_HTTP_RESPONSE_CODE_FAILURE 429'')\<rparr>"

definition test_link :: link where
  "test_link = \<lparr>link_url = ''https://threejs.org/docs/#api/en/Test'', link_text = ''Test Page'',
                 link_path = ''api/en/Test'', link_section = ''Test Section''\<rparr>"

definition working_browser :: "link list \<Rightarrow> browser" where
  "working_browser links =
     \<lparr>goto = (\<lambda>cs url. None), waitForSelector = (\<lambda>cs sel. None), evaluate = (\<lambda>cs. Inr links),
      query = (\<lambda>cs sel. Inr True), contentFrame = (\<lambda>cs. Inr True),
      frame_waitForSelector = (\<lambda>cs sel. None),
      frame_evaluate = (\<lambda>cs. Inr (Some (''<div>Test content</div>'', ''Test content'')))\<rparr>"

definition flaky_browser :: "link list \<Rightarrow> browser" where
  "flaky_browser links =
     (working_browser links)\<lparr>goto := (\<lambda>cs url. if cs = [] then Some ''net::ERR_FAILED'' else None)\<rparr>"

definition constructor_link :: link where
  "constructor_link = \<lparr>link_url = ''https://threejs.org/docs/#api/en/Test'', link_text = ''Test Page'',
                        link_path = ''api/en/Test'', link_section = ''constructor''\<rparr>"

definition dev_config :: config where
  "dev_config = default_config\<lparr>DEV_MODE := True\<rparr>"

definition constructor_doc :: doc where
  "constructor_doc = \<lparr>doc_title = ''T'', doc_content = '''', doc_section = ''constructor''\<rparr>"

definition manual_doc :: doc where
  "manual_doc = \<lparr>doc_title = ''Intro'', doc_content = '''', doc_section = ''Manual''\<rparr>"

definition numbered_doc :: doc where
  "numbered_doc = \<lparr>doc_title = ''Notes'', doc_content = '''', doc_section = ''2024''\<rparr>"

definition nested_code_block :: element where
  "nested_code_block =
     Element ''DIV'' ''manual-content'' ''''
       [Element ''PRE'' '''' '''' [Element ''SPAN'' '''' '''' [Element ''CODE'' ''language-python'' '''' []]]]"

section \<open>Observations\<close>

text \<open>
  What the properties below read off a run: the navigations among the browser calls, the
  files written outside the cache directory, and the record the pipeline makes of a link
  and the value extracted for it.
\<close>

definition is_Goto :: "call \<Rightarrow> bool" where
  "is_Goto c = (case c of Goto url \<Rightarrow> True | _ \<Rightarrow> False)"

definition outside_cache :: "config \<Rightarrow> string \<Rightarrow> bool" where
  "outside_cache cfg p = (\<not> prefix (CACHE_DIR cfg @ ''/'') p)"

definition output_writes :: "config \<Rightarrow> world \<Rightarrow> string list" where
  "output_writes cfg w = filter (outside_cache cfg) (written w)"

definition doc_of :: "env \<Rightarrow> link \<Rightarrow> json \<Rightarrow> doc" where
  "doc_of e l content =
     \<lparr>doc_title = link_text l, doc_content = content_property e content,
      doc_section = (if link_section l = [] then ''Reference'' else link_section l)\<rparr>"

text \<open>
  The sections of a list of records in first-seen order, the records an object holds for a
  key, and the \<open>reduce\<close> step when the key is not an inherited one.
\<close>

function first_seen :: "'a list \<Rightarrow> 'a list" where
  "first_seen [] = []"
| "first_seen (x # xs) = x # first_seen (removeAll x xs)"
  by pat_completeness auto
termination
  by (relation "measure length") (auto simp: less_Suc_eq_le length_removeAll_less_eq)

definition grouped :: "doc list js_object \<Rightarrow> string \<Rightarrow> doc list" where
  "grouped acc k = (case map_of acc k of Some docs \<Rightarrow> docs | None \<Rightarrow> [])"

definition add_doc :: "doc list js_object \<Rightarrow> doc \<Rightarrow> doc list js_object" where
  "add_doc acc d = AList.update (section_of d) (grouped acc (section_of d) @ [d]) acc"

text \<open>
  For \<open>processCodeBlocks\<close>: the tree with classes and styles erased, the class and
  \<open>white-space\<close> of the element at a path, the language a class attribute gives, the change
  one step of the \<open>forEach\<close> makes (the path it writes to and the new class as a function of
  the old one), and the steps for a list of paths.
\<close>

fun shape :: "element \<Rightarrow> element" where
  "shape (Element t c s cs) = Element t [] [] (map shape cs)"

definition attrs_at :: "element \<Rightarrow> nat list \<Rightarrow> (string \<times> string) option" where
  "attrs_at tree p = map_option (\<lambda>el. (className el, whiteSpace el)) (element_at tree p)"

definition language_of :: "string \<Rightarrow> string" where
  "language_of cls = (case match_language cls of Some l \<Rightarrow> l | None \<Rightarrow> ''javascript'')"

definition restyle :: "(string \<Rightarrow> string) \<Rightarrow> element \<Rightarrow> element" where
  "restyle f el = set_class (f (className el)) el"

definition write_of :: "element \<Rightarrow> nat list \<Rightarrow> (nat list \<times> (string \<Rightarrow> string)) option" where
  "write_of content p =
     (case element_at content p of
        None \<Rightarrow> None
      | Some el \<Rightarrow>
          if tagName el = ''PRE''
          then Some (case querySelector el [''CODE''] of Some q \<Rightarrow> p @ q | None \<Rightarrow> p,
                     \<lambda>cls. ''prettyprint lang-'' @ language_of cls)
          else if tagName el = ''CODE'' \<and> \<not> has_tag content [''PRE''] (butlast p)
          then Some (p, \<lambda>cls. ''inline'')
          else None)"

definition run_blocks :: "nat list list \<Rightarrow> element \<Rightarrow> element" where
  "run_blocks ps tree = foldl (\<lambda>t p. process_element p t) tree ps"

text \<open>
  The \<open>div\<close> elements of a document, read off its text one character at a time. The state
  holds the number of \<open>div\<close> elements open, the text of the tag being read (if any), the
  opening tags of the \<open>div\<close> elements that lie in no other \<open>div\<close>, and the opening tags of
  all \<open>div\<close> elements, each in document order. A page wrapper is a \<open>div\<close> of class
  \<open>manual\<close>, as \<open>generateContent\<close> prints it.
\<close>

type_synonym tag_scan = "nat \<times> string option \<times> string list \<times> string list"

definition scan_char :: "tag_scan \<Rightarrow> char \<Rightarrow> tag_scan" where
  "scan_char st c =
     (case st of (d, cur, roots, tags) \<Rightarrow>
        (case cur of
           None \<Rightarrow> if c = CHR ''<'' then (d, Some [c], roots, tags) else st
         | Some buf \<Rightarrow>
             if c = CHR ''>'' then
               (if prefix ''<div '' buf \<or> buf = ''<div''
                then (Suc d, None, (if d = 0 then roots @ [buf @ [c]] else roots), tags @ [buf @ [c]])
                else if buf = ''</div'' then (d - 1, None, roots, tags)
                else (d, None, roots, tags))
             else (d, Some (buf @ [c]), roots, tags)))"

definition scan_divs :: "string \<Rightarrow> tag_scan" where
  "scan_divs html = foldl scan_char (0, None, [], []) html"

definition div_tags :: "string \<Rightarrow> string list" where
  "div_tags html = (case scan_divs html of (d, cur, roots, tags) \<Rightarrow> tags)"



definition page_wrappers :: "string \<Rightarrow> string list" where
  \<open>page_wrappers html = filter (prefix ''<div class="manual"'') (div_tags html)\<close>

section \<open>Properties of the cache and of extraction\<close>

lemma str_includes_sublist: "str_includes s p \<longleftrightarrow> sublist p s"
  by (induction s) (auto simp: sublist_Cons_right)

text \<open>
  C6. For every extracted content region the \<open>hasMalformedHTML\<close> flag is true if and only if
  the serialised inner HTML contains one of the three known-bad substrings
  \<^verbatim>\<open></div></p>\<close>, \<^verbatim>\<open><p></div>\<close>, \<^verbatim>\<open><div></p>\<close>.
\<close>

theorem hasMalformedHTML_iff:
  "result_hasMalformedHTML (extractFrameContent (Some (innerHTML, textContent))) \<longleftrightarrow>
     sublist ''</div></p>'' innerHTML \<or> sublist ''<p></div>'' innerHTML \<or>
     sublist ''<div></p>'' innerHTML"
  by (simp add: hasMalformedHTML_def malformedPatterns_def str_includes_sublist)

theorem hasMalformedHTML_iff_witness:
  "result_hasMalformedHTML (extractFrameContent (Some (''<div>Test</div></p>'', ''Test''))) \<and>
   \<not> result_hasMalformedHTML (extractFrameContent (Some (''<div>Test content</div>'', ''Test content'')))"
proof -
  have bad: "sublist ''</div></p>'' ''<div>Test</div></p>''"
    unfolding str_includes_sublist [symmetric] by simp
  have good: "\<not> sublist ''</div></p>'' ''<div>Test content</div>''"
    "\<not> sublist ''<p></div>'' ''<div>Test content</div>''"
    "\<not> sublist ''<div></p>'' ''<div>Test content</div>''"
    unfolding str_includes_sublist [symmetric] by simp_all
  from bad good show ?thesis
    using hasMalformedHTML_iff [of "''<div>Test</div></p>''" "''Test''"]
          hasMalformedHTML_iff [of "''<div>Test content</div>''" "''Test content''"]
    by blast
qed

text \<open>
  C8. \<open>getFromCache\<close> resolves with \<open>null\<close>, and never rejects, when caching is disabled,
  when the cache file is missing, when it cannot be read, and when its text is not JSON.
\<close>

theorem getFromCache_absent:
  "(\<not> USE_CACHE cfg \<longrightarrow> getFromCache e cfg w url = Inr JNull) \<and>
   (files w (getCacheKey e cfg url) = Missing \<longrightarrow> getFromCache e cfg w url = Inr JNull) \<and>
   (files w (getCacheKey e cfg url) = Unreadable \<longrightarrow> getFromCache e cfg w url = Inr JNull) \<and>
   (files w (getCacheKey e cfg url) = Data d \<and> JSON_parse e d = None \<longrightarrow>
      getFromCache e cfg w url = Inr JNull)"
  by (simp add: getFromCache_def getFromCache_try_def readFile_def)

theorem getFromCache_absent_witness:
  "getFromCache example_env (default_config\<lparr>USE_CACHE := False\<rparr>)
     (empty_world\<lparr>files := (\<lambda>p. Data example_page_json)\<rparr>) ''https://test.url'' = Inr JNull \<and>
   getFromCache example_env default_config empty_world ''https://test.url'' = Inr JNull \<and>
   getFromCache example_env default_config (empty_world\<lparr>files := (\<lambda>p. Unreadable)\<rparr>)
     ''https://test.url'' = Inr JNull \<and>
   getFromCache example_env default_config (empty_world\<lparr>files := (\<lambda>p. Data ''{not json'')\<rparr>)
     ''https://test.url'' = Inr JNull"
proof -
  have nocache: "\<not> USE_CACHE (default_config\<lparr>USE_CACHE := False\<rparr>)"
    by simp
  have missing: "files empty_world (getCacheKey example_env default_config ''https://test.url'') = Missing"
    by (simp add: empty_world_def)
  have unreadable:
    "files (empty_world\<lparr>files := (\<lambda>p. Unreadable)\<rparr>)
       (getCacheKey example_env default_config ''https://test.url'') = Unreadable"
    by simp
  have malformed:
    "files (empty_world\<lparr>files := (\<lambda>p. Data ''{not json'')\<rparr>)
       (getCacheKey example_env default_config ''https://test.url'') = Data ''{not json'' \<and>
     JSON_parse example_env ''{not json'' = None"
    by (simp add: example_env_def example_page_json_def)
  from nocache missing unreadable malformed show ?thesis
    using getFromCache_absent [of "default_config\<lparr>USE_CACHE := False\<rparr>" example_env
            "empty_world\<lparr>files := (\<lambda>p. Data example_page_json)\<rparr>" "''https://test.url''" "''''"]
          getFromCache_absent [of default_config example_env empty_world "''https://test.url''" "''''"]
          getFromCache_absent [of default_config example_env
            "empty_world\<lparr>files := (\<lambda>p. Unreadable)\<rparr>" "''https://test.url''" "''''"]
          getFromCache_absent [of default_config example_env
            "empty_world\<lparr>files := (\<lambda>p. Data ''{not json'')\<rparr>" "''https://test.url''" "''{not json''"]
    by blast
qed



lemma getFromCache_no_validation:
  assumes "USE_CACHE cfg"
    and "files w (getCacheKey e cfg url) = Data d"
    and "JSON_parse e d = Some v"
  shows "getFromCache e cfg w url = Inr v"
  using assms by (simp add: getFromCache_def getFromCache_try_def readFile_def)

lemma getFromCache_extracted:
  "getFromCache e cfg (w\<lparr>extracted := x\<rparr>) url = getFromCache e cfg w url"
  by (simp add: getFromCache_def getFromCache_try_def readFile_def)

text \<open>
  C3. When the cache lookup for \<open>url\<close> returns a stored record, \<open>extractContent\<close> returns that
  record and makes no call on the browser session (no navigation, no wait for a selector,
  no evaluation); it writes no file either.
\<close>

theorem extractContent_cache_hit:
  assumes "getFromCache e cfg w url = Inr (JObj props)"
  shows "fst (extractContent e cfg page w url title) = Inr (JObj props) \<and>
         calls (snd (extractContent e cfg page w url title)) = calls w \<and>
         files (snd (extractContent e cfg page w url title)) = files w \<and>
         written (snd (extractContent e cfg page w url title)) = written w"
proof -
  have "getFromCache e cfg (w\<lparr>extracted := extracted w @ [(url, title)]\<rparr>) url = Inr (JObj props)"
    using assms by (simp add: getFromCache_extracted)
  then show ?thesis
    by (simp add: extractContent_def Let_def)
qed

theorem extractContent_cache_hit_witness:
  "fst (extractContent example_env default_config failing_browser cached_world ''https://test.url''
          ''Test Page'') = Inr example_page \<and>
   calls (snd (extractContent example_env default_config failing_browser cached_world
          ''https://test.url'' ''Test Page'')) = []"
proof -
  have hit: "getFromCache example_env default_config cached_world ''https://test.url''
               = Inr (JObj [(''title'', JStr ''Cached Page''),
                            (''content'', JStr ''<div>Cached content</div>''),
                            (''hasMalformedHTML'', JBool False)])"
    by (simp add: getFromCache_def getFromCache_try_def readFile_def cached_world_def
        empty_world_def example_env_def example_page_def default_config_def)
  have "calls cached_world = []"
    by (simp add: cached_world_def empty_world_def)
  then show ?thesis
    using extractContent_cache_hit [OF hit, of failing_browser "''Test Page''"]
    by (simp add: example_page_def)
qed

section \<open>Properties of link discovery\<close>

lemma links_attempt_one_navigation:
  "links_attempt cfg page w = (r, w1) \<Longrightarrow>
     length (filter is_Goto (calls w1)) = Suc (length (filter is_Goto (calls w)))"
  by (auto simp: links_attempt_def record_call_def is_Goto_def Let_def
      split: option.splits sum.splits)

lemma links_attempt_sleeps: "links_attempt cfg page w = (r, w1) \<Longrightarrow> sleeps w1 = sleeps w"
  by (auto simp: links_attempt_def record_call_def Let_def split: option.splits sum.splits)

lemma extractLinks_unfold:
  "extractLinks cfg page w =
     (case links_attempt cfg page w of
        (Inr links, w1) \<Rightarrow> (Inr (Some links), 0, w1)
      | (Inl err, w1) \<Rightarrow>
          if str_includes (message err) ''429'' then (Inl (Error ''Rate limit exceeded''), 0, w1)
          else (case links_attempt cfg page (w1\<lparr>sleeps := sleeps w1 @ [1000]\<rparr>) of
                  (Inr links, w2) \<Rightarrow> (Inr (Some links), 1, w2)
                | (Inl err2, w2) \<Rightarrow>
                    if str_includes (message err2) ''429''
                    then (Inl (Error ''Rate limit exceeded''), 1, w2)
                    else (Inl err2, 2, w2)))"
  by (simp add: extractLinks_def maxRetries_def split: prod.splits sum.splits)

text \<open>
  C4, as amended. A failed attempt whose error message contains \<open>429\<close> makes the loop fail at
  once with the error \<open>Rate limit exceeded\<close>: the state is the one that attempt left (no
  further call, no delay) and the retry counter keeps the value it had before that attempt
  (0 for a first attempt, 1 for the second). Other failures are retried: at most two
  attempts are made, 1000 ms apart, a success of either is returned, and when both fail the
  error of the second is thrown.
\<close>

theorem extractLinks_retry:
  "(attempts < maxRetries \<and> links_attempt cfg page w = (Inl err, w1) \<and>
      str_includes (message err) ''429'' \<longrightarrow>
      extractLinks_loop cfg page attempts w = (Inl (Error ''Rate limit exceeded''), attempts, w1)) \<and>
   (links_attempt cfg page w = (Inr links, w1) \<longrightarrow>
      extractLinks cfg page w = (Inr (Some links), 0, w1)) \<and>
   (links_attempt cfg page w = (Inl err, w1) \<and> \<not> str_includes (message err) ''429'' \<and>
      links_attempt cfg page (w1\<lparr>sleeps := sleeps w1 @ [1000]\<rparr>) = (Inr links, w2) \<longrightarrow>
      extractLinks cfg page w = (Inr (Some links), 1, w2)) \<and>
   (links_attempt cfg page w = (Inl err, w1) \<and> \<not> str_includes (message err) ''429'' \<and>
      links_attempt cfg page (w1\<lparr>sleeps := sleeps w1 @ [1000]\<rparr>) = (Inl err2, w2) \<and>
      \<not> str_includes (message err2) ''429'' \<longrightarrow>
      extractLinks cfg page w = (Inl err2, 2, w2) \<and> sleeps w2 = sleeps w @ [1000]) \<and>
   length (filter is_Goto (calls (snd (snd (extractLinks cfg page w)))))
     \<le> length (filter is_Goto (calls w)) + 2"
proof (intro conjI impI)
  assume "attempts < maxRetries \<and> links_attempt cfg page w = (Inl err, w1) \<and>
    str_includes (message err) ''429''"
  then show "extractLinks_loop cfg page attempts w
    = (Inl (Error ''Rate limit exceeded''), attempts, w1)"
    by simp
next
  assume "links_attempt cfg page w = (Inr links, w1)"
  then show "extractLinks cfg page w = (Inr (Some links), 0, w1)"
    by (simp add: extractLinks_unfold)
next
  assume "links_attempt cfg page w = (Inl err, w1) \<and> \<not> str_includes (message err) ''429'' \<and>
      links_attempt cfg page (w1\<lparr>sleeps := sleeps w1 @ [1000]\<rparr>) = (Inr links, w2)"
  then show "extractLinks cfg page w = (Inr (Some links), 1, w2)"
    by (simp add: extractLinks_unfold)
next
  assume h: "links_attempt cfg page w = (Inl err, w1) \<and> \<not> str_includes (message err) ''429'' \<and>
      links_attempt cfg page (w1\<lparr>sleeps := sleeps w1 @ [1000]\<rparr>) = (Inl err2, w2) \<and>
      \<not> str_includes (message err2) ''429''"
  then show "extractLinks cfg page w = (Inl err2, 2, w2)"
    by (simp add: extractLinks_unfold)
  from h have "sleeps w1 = sleeps w" and "sleeps w2 = sleeps (w1\<lparr>sleeps := sleeps w1 @ [1000]\<rparr>)"
    by (auto dest: links_attempt_sleeps)
  then show "sleeps w2 = sleeps w @ [1000]"
    by simp
next
  obtain r1 v1 where a1: "links_attempt cfg page w = (r1, v1)"
    by (cases "links_attempt cfg page w")
  obtain r2 v2 where a2: "links_attempt cfg page (v1\<lparr>sleeps := sleeps v1 @ [1000]\<rparr>) = (r2, v2)"
    by (cases "links_attempt cfg page (v1\<lparr>sleeps := sleeps v1 @ [1000]\<rparr>)")
  have n1: "length (filter is_Goto (calls v1)) = Suc (length (filter is_Goto (calls w)))"
    using a1 by (rule links_attempt_one_navigation)
  have n2: "length (filter is_Goto (calls v2)) = Suc (length (filter is_Goto (calls v1)))"
    using links_attempt_one_navigation [OF a2] by simp
  show "length (filter is_Goto (calls (snd (snd (extractLinks cfg page w)))))
     \<le> length (filter is_Goto (calls w)) + 2"
    using a1 a2 n1 n2 by (simp add: extractLinks_unfold split: sum.splits)
qed

theorem extractLinks_retry_witness:
  "extractLinks_loop default_config rate_limited_browser 0 empty_world =
     (Inl (Error ''Rate limit exceeded''), 0,
      record_call (Goto (DOCS_URL default_config)) empty_world) \<and>
   fst (extractLinks default_config (working_browser [test_link]) empty_world) = Inr (Some [test_link]) \<and>
   fst (snd (extractLinks default_config (working_browser [test_link]) empty_world)) = 0 \<and>
   fst (extractLinks default_config (flaky_browser [test_link]) empty_world) = Inr (Some [test_link]) \<and>
   fst (snd (extractLinks default_config (flaky_browser [test_link]) empty_world)) = 1 \<and>
   fst (extractLinks default_config failing_browser empty_world) = Inl (Error ''net::ERR_FAILED'') \<and>
   fst (snd (extractLinks default_config failing_browser empty_world)) = 2 \<and>
   sleeps (snd (snd (extractLinks default_config failing_browser empty_world))) = [1000]"
proof -
  let ?url = "DOCS_URL default_config"
  let ?panel = "SELECTORS_panel default_config"
  define w1 where "w1 = record_call (Goto ?url) empty_world"
  define w1' where "w1' = w1\<lparr>sleeps := sleeps w1 @ [1000]\<rparr>"
  define w2 where "w2 = record_call (Goto ?url) w1'"
  define v3 where "v3 = record_call Evaluate (record_call (WaitForSelector ?panel) w1)"
  define v4 where "v4 = record_call Evaluate (record_call (WaitForSelector ?panel) w2)"
  have limited: "(0::nat) < maxRetries \<and>
      links_attempt default_config rate_limited_browser empty_world = (Inl (Error ''429''), w1) \<and>
      str_includes (message (Error ''429'')) ''429''"
    by (simp add: maxRetries_def links_attempt_def rate_limited_browser_def failing_browser_def w1_def)
  have ok: "links_attempt default_config (working_browser [test_link]) empty_world
      = (Inr [test_link], v3)"
    by (simp add: links_attempt_def working_browser_def v3_def w1_def)
  have flaky: "links_attempt default_config (flaky_browser [test_link]) empty_world
        = (Inl (Error ''net::ERR_FAILED''), w1) \<and>
      \<not> str_includes (message (Error ''net::ERR_FAILED'')) ''429'' \<and>
      links_attempt default_config (flaky_browser [test_link]) (w1\<lparr>sleeps := sleeps w1 @ [1000]\<rparr>)
        = (Inr [test_link], v4)"
    by (simp add: links_attempt_def flaky_browser_def working_browser_def v4_def w2_def w1'_def
        w1_def record_call_def empty_world_def)
  have failing: "links_attempt default_config failing_browser empty_world
        = (Inl (Error ''net::ERR_FAILED''), w1) \<and>
      \<not> str_includes (message (Error ''net::ERR_FAILED'')) ''429'' \<and>
      links_attempt default_config failing_browser (w1\<lparr>sleeps := sleeps w1 @ [1000]\<rparr>)
        = (Inl (Error ''net::ERR_FAILED''), w2) \<and>
      \<not> str_includes (message (Error ''net::ERR_FAILED'')) ''429''"
    by (simp add: links_attempt_def failing_browser_def w2_def w1'_def w1_def)
  have r1: "extractLinks_loop default_config rate_limited_browser 0 empty_world
      = (Inl (Error ''Rate limit exceeded''), 0, w1)"
    using limited extractLinks_retry [where attempts = 0 and cfg = default_config
        and page = rate_limited_browser and w = empty_world and err = "Error ''429''" and ?w1.0 = w1]
    by blast
  have r2: "extractLinks default_config (working_browser [test_link]) empty_world
      = (Inr (Some [test_link]), 0, v3)"
    using ok extractLinks_retry [where cfg = default_config and page = "working_browser [test_link]"
        and w = empty_world and links = "[test_link]" and ?w1.0 = v3]
    by blast
  have r3: "extractLinks default_config (flaky_browser [test_link]) empty_world
      = (Inr (Some [test_link]), 1, v4)"
    using flaky extractLinks_retry [where cfg = default_config and page = "flaky_browser [test_link]"
        and w = empty_world and err = "Error ''net::ERR_FAILED''" and ?w1.0 = w1
        and links = "[test_link]" and ?w2.0 = v4]
    by blast
  have r4: "extractLinks default_config failing_browser empty_world
        = (Inl (Error ''net::ERR_FAILED''), 2, w2) \<and> sleeps w2 = sleeps empty_world @ [1000]"
    using failing extractLinks_retry [where cfg = default_config and page = failing_browser
        and w = empty_world and err = "Error ''net::ERR_FAILED''" and ?w1.0 = w1
        and ?err2.0 = "Error ''net::ERR_FAILED''" and ?w2.0 = w2]
    by blast
  from r1 r2 r3 r4 show ?thesis
    by (simp add: w1_def empty_world_def)
qed

text \<open>
  C4 as stated fails: when the first attempt times out and the second is rate limited, the
  rate-limit error is thrown with the retry counter at 1, not at its initial value 0.
\<close>

theorem rate_limit_after_retry_counterexample:
  "fst (extractLinks default_config timeout_then_429 empty_world) = Inl (Error ''Rate limit exceeded'') \<and>
   fst (snd (extractLinks default_config timeout_then_429 empty_world)) \<noteq> 0"
  by (simp add: extractLinks_unfold links_attempt_def record_call_def timeout_then_429_def
      failing_browser_def empty_world_def default_config_def)

section \<open>Properties of the assembled document\<close>

lemma generateTableOfContents_empty: "generateTableOfContents [] = Inr []"
  by (simp add: generateTableOfContents_def toc_sections_def Object_entries_def)





text \<open>
  The same reading finds the wrapper of a document assembled from one record.
\<close>

lemma scan_divs_one_page:
  \<open>\<exists>html. generateHTML default_config
        [\<lparr>doc_title = ''T'', doc_content = ''<p>x</p>'', doc_section = ''S''\<rparr>] = Inr html \<and>
      page_wrappers html = [''<div class="manual" id="T">'']\<close>
  by (simp add: generateHTML_def generateBody_def generateTableOfContents_def toc_sections_def
      Object_entries_def generateContent_def generateHead_def generateHeader_def generateSearch_def
      generateScript_def default_config_def scan_divs_def scan_char_def page_wrappers_def
      div_tags_def reduce_step_def get_property_def object_prototype_keys_def section_of_def
      is_array_index_def is_digit_def toc_section_def toc_item_def content_wrapper_def
      encodeURIComponent_def encode_byte_def uri_unreserved_def Let_def)

section \<open>Properties of the table of contents\<close>

text \<open>
  As long as no section label is a property every object inherits, the \<open>reduce\<close> groups the
  records by section, the sections in first-seen order and the records of a section in
  input order; \<open>Object.entries\<close> keeps that order when no label is an array index, and the
  anchors of the table of contents are then the ids of the viewer.
\<close>

lemma first_seen_example: "first_seen [''A'', ''B'', ''A'', ''C''] = [''A'', ''B'', ''C'']"
  by simp

lemma set_first_seen: "set (first_seen xs) = set xs"
  by (induction xs rule: first_seen.induct) auto

lemma distinct_first_seen: "distinct (first_seen xs)"
  by (induction xs rule: first_seen.induct) (auto simp: set_first_seen)

lemma reduce_step_add_doc:
  assumes "section_of d \<notin> set object_prototype_keys"
  shows "reduce_step acc d = Inr (add_doc acc d)"
proof (cases "map_of acc (section_of d)")
  case None
  then show ?thesis
    using assms
    by (simp add: reduce_step_def get_property_def add_doc_def grouped_def Let_def update_conv')
next
  case (Some docs)
  then show ?thesis
    by (simp add: reduce_step_def get_property_def add_doc_def grouped_def Let_def)
qed

lemma reduce_sections_foldl:
  "\<forall>d\<in>set docs. section_of d \<notin> set object_prototype_keys \<Longrightarrow>
     reduce_sections acc docs = Inr (foldl add_doc acc docs)"
  by (induction docs arbitrary: acc) (simp_all add: reduce_step_add_doc)

lemma keys_add_doc:
  "map fst (add_doc acc d) =
     (if section_of d \<in> set (map fst acc) then map fst acc else map fst acc @ [section_of d])"
  by (simp add: add_doc_def update_keys)

lemma removeAll_filter: "removeAll k (filter P xs) = filter (\<lambda>x. P x \<and> x \<noteq> k) xs"
  by (induction xs) auto

lemma keys_foldl_add_doc:
  "map fst (foldl add_doc acc docs) =
     map fst acc @ first_seen (filter (\<lambda>s. s \<notin> set (map fst acc)) (map section_of docs))"
proof (induction docs arbitrary: acc)
  case Nil
  then show ?case by simp
next
  case (Cons d docs)
  show ?case
  proof (cases "section_of d \<in> set (map fst acc)")
    case True
    then show ?thesis
      using Cons.IH [of "add_doc acc d"] by (simp add: keys_add_doc)
  next
    case False
    have "(\<lambda>s. s \<notin> set (map fst acc) \<and> s \<noteq> section_of d) =
          (\<lambda>s. s \<noteq> section_of d \<and> s \<notin> set (map fst acc))"
      by auto
    with False show ?thesis
      using Cons.IH [of "add_doc acc d"] by (simp add: keys_add_doc removeAll_filter conj_commute)
  qed
qed

lemma grouped_add_doc:
  "grouped (add_doc acc d) k = (if k = section_of d then grouped acc k @ [d] else grouped acc k)"
  by (simp add: grouped_def add_doc_def update_conv')

lemma grouped_foldl_add_doc:
  "grouped (foldl add_doc acc docs) k = grouped acc k @ filter (\<lambda>d. section_of d = k) docs"
  by (induction docs arbitrary: acc) (auto simp: grouped_add_doc)

lemma distinct_keys_add_doc: "distinct (map fst acc) \<Longrightarrow> distinct (map fst (add_doc acc d))"
  by (simp add: add_doc_def distinct_update)

lemma distinct_keys_foldl: "distinct (map fst acc) \<Longrightarrow> distinct (map fst (foldl add_doc acc docs))"
  by (induction docs arbitrary: acc) (simp_all add: distinct_keys_add_doc)

lemma alist_by_keys:
  "distinct (map fst al) \<Longrightarrow> al = map (\<lambda>k. (k, grouped al k)) (map fst al)"
proof (induction al)
  case Nil
  then show ?case by simp
next
  case (Cons p al)
  obtain k v where p: "p = (k, v)"
    by (cases p)
  from Cons.prems p have fresh: "k \<notin> fst ` set al" and dist: "distinct (map fst al)"
    by auto
  have "map (\<lambda>k'. (k', grouped ((k, v) # al) k')) (map fst al) =
        map (\<lambda>k'. (k', grouped al k')) (map fst al)"
    using fresh by (auto simp: grouped_def)
  with Cons.IH [OF dist] p show ?case
    by (simp add: grouped_def)
qed

lemma reduce_sections_grouped:
  assumes "\<forall>d\<in>set docs. section_of d \<notin> set object_prototype_keys"
  shows "reduce_sections [] docs =
     Inr (map (\<lambda>s. (s, filter (\<lambda>d. section_of d = s) docs)) (first_seen (map section_of docs)))"
proof -
  let ?obj = "foldl add_doc [] docs"
  have keys: "map fst ?obj = first_seen (map section_of docs)"
    using keys_foldl_add_doc [of "[]" docs] by simp
  have vals: "grouped ?obj k = filter (\<lambda>d. section_of d = k) docs" for k
    using grouped_foldl_add_doc [of "[]" docs k] by (simp add: grouped_def)
  have "distinct (map fst ?obj)"
    by (simp add: distinct_keys_foldl)
  from alist_by_keys [OF this] keys vals
  have "?obj = map (\<lambda>s. (s, filter (\<lambda>d. section_of d = s) docs)) (first_seen (map section_of docs))"
    by simp
  with reduce_sections_foldl [OF assms] show ?thesis
    by simp
qed

lemma Object_entries_no_index:
  "\<forall>kv\<in>set obj. \<not> is_array_index (fst kv) \<Longrightarrow> Object_entries obj = obj"
proof -
  assume h: "\<forall>kv\<in>set obj. \<not> is_array_index (fst kv)"
  then have "filter (\<lambda>kv. is_array_index (fst kv)) obj = []"
    by (simp add: filter_empty_conv)
  moreover from h have "filter (\<lambda>kv. \<not> is_array_index (fst kv)) obj = obj"
    by (simp add: filter_id_conv)
  ultimately show ?thesis
    by (simp add: Object_entries_def)
qed

lemma toc_sections_first_seen:
  assumes "\<forall>d\<in>set docs. section_of d \<notin> set object_prototype_keys \<and> \<not> is_array_index (section_of d)"
  shows "toc_sections docs =
     Inr (map (\<lambda>s. (s, filter (\<lambda>d. section_of d = s) docs)) (first_seen (map section_of docs)))"
proof -
  let ?obj = "map (\<lambda>s. (s, filter (\<lambda>d. section_of d = s) docs)) (first_seen (map section_of docs))"
  have "reduce_sections [] docs = Inr ?obj"
    using assms by (simp add: reduce_sections_grouped)
  moreover have "\<forall>kv\<in>set ?obj. \<not> is_array_index (fst kv)"
    using assms by (auto simp: set_first_seen)
  ultimately show ?thesis
    by (simp add: toc_sections_def Object_entries_no_index)
qed

lemma set_Object_entries: "set (Object_entries obj) = set obj"
  by (auto simp: Object_entries_def)

lemma toc_anchors_match_content_ids:
  assumes "\<forall>d\<in>set docs. section_of d \<notin> set object_prototype_keys"
  shows "\<exists>anchors. toc_anchors docs = Inr anchors \<and> set anchors = set (content_ids docs)"
proof -
  let ?obj = "map (\<lambda>s. (s, filter (\<lambda>d. section_of d = s) docs)) (first_seen (map section_of docs))"
  let ?enc = "\<lambda>d. encodeURIComponent (doc_title d)"
  have red: "reduce_sections [] docs = Inr ?obj"
    using assms by (simp add: reduce_sections_grouped)
  have "set (concat (map (\<lambda>entry. map ?enc (snd entry)) (Object_entries ?obj))) = ?enc ` set docs"
    by (auto simp: set_Object_entries set_first_seen)
  with red show ?thesis
    by (simp add: toc_anchors_def toc_sections_def content_ids_def)
qed

text \<open>
  C1 fails at a record whose section is \<open>constructor\<close>: \<open>acc['constructor']\<close> is the function
  every object inherits, so no array is created, \<open>push\<close> is not a function, and
  \<open>generateTableOfContents\<close> throws and emits no anchor, while \<open>generateContent\<close> emits the
  wrapper id \<open>T\<close> for the same input.
\<close>

theorem toc_inherited_section_throws:
  "generateTableOfContents [constructor_doc] = Inl (TypeError ''acc[section].push is not a function'') \<and>
   toc_anchors [constructor_doc] = Inl (TypeError ''acc[section].push is not a function'') \<and>
   content_ids [constructor_doc] = [''T'']"
  by (simp add: generateTableOfContents_def toc_anchors_def toc_sections_def reduce_step_def
      get_property_def object_prototype_keys_def section_of_def constructor_doc_def content_ids_def
      encodeURIComponent_def encode_byte_def uri_unreserved_def Let_def)

text \<open>
  C2 fails at the sections \<open>Manual\<close>, \<open>2024\<close> in this input order: \<open>2024\<close> is an array index,
  \<open>Object.entries\<close> lists it first, and the table of contents renders \<open>2024\<close> before
  \<open>Manual\<close>.
\<close>

theorem toc_numeric_section_first:
  "toc_sections [manual_doc, numbered_doc] = Inr [(''2024'', [numbered_doc]), (''Manual'', [manual_doc])]"
  by (simp add: toc_sections_def reduce_step_def get_property_def object_prototype_keys_def
      section_of_def manual_doc_def numbered_doc_def Object_entries_def is_array_index_def
      is_digit_def index_value_def Let_def)

section \<open>Properties of code block normalisation\<close>

text \<open>
  The two examples of the specification: a \<open>code\<close> child of a \<open>pre\<close> with class
  \<open>language-python\<close> ends with class \<open>prettyprint lang-python\<close>, one with no language class
  with \<open>prettyprint lang-javascript\<close>, and a \<open>code\<close> outside a \<open>pre\<close> with \<open>inline\<close>.
\<close>

lemma processCodeBlocks_python:
  "processCodeBlocks (Element ''DIV'' '''' '''' [Element ''PRE'' '''' '''' [Element ''CODE'' ''language-python'' '''' []]])
     = Element ''DIV'' '''' '''' [Element ''PRE'' '''' '''' [Element ''CODE'' ''prettyprint lang-python'' ''pre'' []]]"
  by (simp add: processCodeBlocks_def querySelectorAll_def querySelector_def
      has_tag_def process_element_def set_class_def is_word_char_def Let_def)

lemma processCodeBlocks_default_language:
  "processCodeBlocks (Element ''DIV'' '''' '''' [Element ''PRE'' '''' '''' [Element ''CODE'' '''' '''' []], Element ''P'' '''' '''' [Element ''CODE'' '''' '''' []]])
     = Element ''DIV'' '''' '''' [Element ''PRE'' '''' '''' [Element ''CODE'' ''prettyprint lang-javascript'' ''pre'' []], Element ''P'' '''' '''' [Element ''CODE'' ''inline'' ''pre'' []]]"
  by (simp add: processCodeBlocks_def querySelectorAll_def querySelector_def
      has_tag_def process_element_def set_class_def is_word_char_def Let_def)

text \<open>
  For every content region: a \<open>pre\<close> below no other \<open>pre\<close> whose first \<open>code\<close> descendant is
  its child gives that child the class \<open>prettyprint lang-<name>\<close> of the child's own class
  attribute; a \<open>pre\<close> without a \<open>code\<close> descendant gets that class from its own attribute;
  a \<open>code\<close> element below no \<open>pre\<close> gets the class \<open>inline\<close>; each with \<open>white-space: pre\<close>.
\<close>

lemma shape_simps: "tagName (shape el) = tagName el" "childElements (shape el) = map shape (childElements el)"
  by (cases el; simp)+

lemma element_at_shape: "element_at (shape tree) p = map_option shape (element_at tree p)"
  by (induction p arbitrary: tree) (simp_all add: shape_simps)

lemma paths_shape:
  "subtree_paths (shape el) = subtree_paths el"
  "children_paths i (map shape cs) = children_paths i cs"
  by (induction el and i cs rule: subtree_paths_children_paths.induct) simp_all

lemma has_tag_shape: "has_tag (shape tree) tags p = has_tag tree tags p"
  by (cases "element_at tree p") (simp_all add: has_tag_def element_at_shape shape_simps)

lemma has_tag_cong: "shape a = shape b \<Longrightarrow> has_tag a tags p = has_tag b tags p"
  by (metis has_tag_shape)

lemma querySelector_cong: "shape a = shape b \<Longrightarrow> querySelector a tags = querySelector b tags"
proof -
  assume h: "shape a = shape b"
  then have "has_tag a tags = has_tag b tags"
    using has_tag_cong [of a b tags] by (simp add: fun_eq_iff)
  moreover have "subtree_paths a = subtree_paths b"
    using h by (metis paths_shape(1))
  ultimately show ?thesis
    by (simp add: querySelector_def)
qed

lemma querySelectorAll_cong: "shape a = shape b \<Longrightarrow> querySelectorAll a tags = querySelectorAll b tags"
proof -
  assume h: "shape a = shape b"
  then have "has_tag a tags = has_tag b tags"
    using has_tag_cong [of a b tags] by (simp add: fun_eq_iff)
  moreover have "subtree_paths a = subtree_paths b"
    using h by (metis paths_shape(1))
  ultimately show ?thesis
    by (simp add: querySelectorAll_def)
qed

lemma shape_restyle: "shape (restyle f el) = shape el"
  by (cases el) (simp add: restyle_def set_class_def)

lemma shape_modify_at: "shape (modify_at t (restyle f) tree) = shape tree"
proof (induction t arbitrary: tree)
  case Nil
  then show ?case by (simp add: shape_restyle)
next
  case (Cons i t)
  obtain tg c s cs where tree: "tree = Element tg c s cs"
    by (cases tree)
  show ?case
  proof (cases "i < length cs")
    case True
    have "map shape (cs[i := modify_at t (restyle f) (cs ! i)]) = (map shape cs)[i := shape (cs ! i)]"
      by (simp add: map_update Cons.IH)
    also have "\<dots> = map shape cs"
      using True by (simp add: list_update_same_conv)
    finally show ?thesis
      using True by (simp add: tree)
  next
    case False
    then show ?thesis by (simp add: tree)
  qed
qed

lemma attrs_at_modify_at:
  "attrs_at (modify_at t (restyle f) tree) r =
     (if r = t then map_option (\<lambda>(c, s). (f c, ''pre'')) (attrs_at tree r) else attrs_at tree r)"
proof (induction t arbitrary: r tree)
  case Nil
  then show ?case
    by (cases r) (simp_all add: attrs_at_def restyle_def set_class_def)
next
  case (Cons i t)
  show ?case
  proof (cases r)
    case Nil
    then show ?thesis by (simp add: attrs_at_def)
  next
    case (Cons j r')
    have IH: "attrs_at (modify_at t (restyle f) (childElements tree ! i)) r' =
      (if r' = t then map_option (\<lambda>(c, s). (f c, ''pre'')) (attrs_at (childElements tree ! i) r')
       else attrs_at (childElements tree ! i) r')"
      by (rule Cons.IH)
    then show ?thesis
      using Cons by (auto simp: attrs_at_def nth_list_update)
  qed
qed

lemma modify_at_cong:
  "(\<And>el. element_at tree t = Some el \<Longrightarrow> g el = g' el) \<Longrightarrow> modify_at t g tree = modify_at t g' tree"
  by (induction t arbitrary: tree) simp_all

lemma process_element_write:
  "process_element p tree =
     (case write_of tree p of None \<Rightarrow> tree | Some (t, f) \<Rightarrow> modify_at t (restyle f) tree)"
proof (cases "element_at tree p")
  case None
  then show ?thesis
    by (simp add: process_element_def write_of_def)
next
  case (Some el)
  let ?code = "case querySelector el [''CODE''] of Some q \<Rightarrow> p @ q | None \<Rightarrow> p"
  let ?f = "\<lambda>cls. ''prettyprint lang-'' @ language_of cls"
  have pre: "modify_at ?code
       (set_class (''prettyprint lang-'' @
          (case Option.bind (element_at tree ?code) (\<lambda>c. match_language (className c)) of
             Some l \<Rightarrow> l | None \<Rightarrow> ''javascript''))) tree
     = modify_at ?code (restyle ?f) tree"
    by (rule modify_at_cong) (simp add: restyle_def language_of_def)
  have inline: "modify_at p (set_class ''inline'') tree = modify_at p (restyle (\<lambda>cls. ''inline'')) tree"
    by (rule modify_at_cong) (simp add: restyle_def)
  from Some pre inline show ?thesis
    by (simp add: process_element_def write_of_def Let_def)
qed

lemma shape_process_element: "shape (process_element p tree) = shape tree"
  by (simp add: process_element_write shape_modify_at split: option.splits)

lemma element_at_shape_cong:
  "shape a = shape b \<Longrightarrow> map_option shape (element_at a p) = map_option shape (element_at b p)"
  by (metis element_at_shape)

lemma write_of_cong:
  assumes "shape a = shape b"
  shows "write_of a p = write_of b p"
proof (cases "element_at a p")
  case None
  with element_at_shape_cong [OF assms, of p] show ?thesis
    by (simp add: write_of_def)
next
  case (Some x)
  with element_at_shape_cong [OF assms, of p] obtain y
    where y: "element_at b p = Some y" and xy: "shape x = shape y"
    by (cases "element_at b p") auto
  have "tagName x = tagName y"
    using xy by (metis shape_simps(1))
  moreover have "querySelector x [''CODE''] = querySelector y [''CODE'']"
    using xy by (rule querySelector_cong)
  moreover have "has_tag a [''PRE''] (butlast p) = has_tag b [''PRE''] (butlast p)"
    using assms by (rule has_tag_cong)
  ultimately show ?thesis
    using Some y by (simp add: write_of_def)
qed

lemma run_blocks_simps:
  "run_blocks [] tree = tree"
  "run_blocks (p # ps) tree = run_blocks ps (process_element p tree)"
  "run_blocks (xs @ ys) tree = run_blocks ys (run_blocks xs tree)"
  by (simp_all add: run_blocks_def)

lemma shape_run_blocks: "shape (run_blocks ps tree) = shape tree"
  by (induction ps arbitrary: tree) (simp_all add: run_blocks_simps shape_process_element)

lemma write_of_run_blocks: "write_of (run_blocks ps tree) p = write_of tree p"
  by (rule write_of_cong) (rule shape_run_blocks)

lemma attrs_at_process_element:
  "attrs_at (process_element p tree) r =
     (case write_of tree p of
        None \<Rightarrow> attrs_at tree r
      | Some (t, f) \<Rightarrow>
          if r = t then map_option (\<lambda>(c, s). (f c, ''pre'')) (attrs_at tree r) else attrs_at tree r)"
  by (simp add: process_element_write attrs_at_modify_at split: option.splits)

lemma run_blocks_untouched:
  assumes "\<forall>p\<in>set ps. \<forall>t f. write_of tree p = Some (t, f) \<longrightarrow> t \<noteq> r"
  shows "attrs_at (run_blocks ps tree) r = attrs_at tree r"
  using assms
proof (induction ps arbitrary: tree)
  case Nil
  then show ?case by (simp add: run_blocks_simps)
next
  case (Cons p ps)
  have same: "write_of (process_element p tree) q = write_of tree q" for q
    by (rule write_of_cong) (rule shape_process_element)
  have "attrs_at (run_blocks ps (process_element p tree)) r = attrs_at (process_element p tree) r"
    using Cons.prems by (intro Cons.IH) (simp add: same)
  also have "\<dots> = attrs_at tree r"
    using Cons.prems by (auto simp: attrs_at_process_element split: option.splits)
  finally show ?case
    by (simp add: run_blocks_simps)
qed

lemma run_blocks_written_once:
  assumes dist: "distinct ps" and mem: "p \<in> set ps"
    and own: "write_of tree p = Some (r, f)"
    and others: "\<forall>q\<in>set ps. q \<noteq> p \<longrightarrow> (\<forall>t g. write_of tree q = Some (t, g) \<longrightarrow> t \<noteq> r)"
  shows "attrs_at (run_blocks ps tree) r = map_option (\<lambda>(c, s). (f c, ''pre'')) (attrs_at tree r)"
proof -
  from mem obtain xs ys where ps: "ps = xs @ p # ys"
    by (auto simp: in_set_conv_decomp)
  with dist have nx: "p \<notin> set xs" and ny: "p \<notin> set ys"
    by auto
  let ?t1 = "run_blocks xs tree"
  let ?t2 = "process_element p ?t1"
  have a1: "attrs_at ?t1 r = attrs_at tree r"
    using others nx ps by (intro run_blocks_untouched) auto
  have w1: "write_of ?t1 p = Some (r, f)"
    using own by (simp add: write_of_run_blocks)
  have a2: "attrs_at ?t2 r = map_option (\<lambda>(c, s). (f c, ''pre'')) (attrs_at tree r)"
    using w1 a1 by (simp add: attrs_at_process_element)
  have w2: "write_of ?t2 q = write_of tree q" for q
  proof -
    have "shape ?t2 = shape tree"
      by (simp add: shape_process_element shape_run_blocks)
    then show ?thesis by (rule write_of_cong)
  qed
  have a3: "attrs_at (run_blocks ys ?t2) r = attrs_at ?t2 r"
    using others ny ps by (intro run_blocks_untouched) (auto simp: w2)
  from a2 a3 show ?thesis
    by (simp add: ps run_blocks_simps)
qed

lemma children_paths_heads:
  "p \<in> set (children_paths i cs) \<Longrightarrow> p \<noteq> [] \<and> i \<le> hd p"
proof (induction cs arbitrary: i)
  case Nil
  then show ?case by simp
next
  case (Cons c cs)
  from Cons.prems have "p \<in> (#) i ` set (subtree_paths c) \<or> p \<in> set (children_paths (Suc i) cs)"
    by auto
  then show ?case
  proof
    assume "p \<in> (#) i ` set (subtree_paths c)"
    then show ?thesis by auto
  next
    assume "p \<in> set (children_paths (Suc i) cs)"
    from Cons.IH [OF this] show ?thesis by simp
  qed
qed

lemma distinct_paths:
  "distinct (subtree_paths el)"
  "distinct (children_paths i cs)"
proof (induction el and i cs rule: subtree_paths_children_paths.induct)
  case (1 t c s cs)
  then show ?case
    by (auto dest: children_paths_heads)
next
  case (2 i)
  then show ?case by simp
next
  case (3 i c cs)
  have "set (map ((#) i) (subtree_paths c)) \<inter> set (children_paths (Suc i) cs) = {}"
    by (auto dest: children_paths_heads)
  with 3 show ?case
    by (simp add: distinct_map)
qed

lemma distinct_querySelectorAll: "distinct (querySelectorAll el tags)"
  by (simp add: querySelectorAll_def distinct_paths distinct_tl)

lemma children_paths_iff:
  "p \<in> set (children_paths i cs) \<longleftrightarrow>
     (\<exists>j q. p = (i + j) # q \<and> j < length cs \<and> q \<in> set (subtree_paths (cs ! j)))"
proof (induction cs arbitrary: i)
  case Nil
  then show ?case by simp
next
  case (Cons c cs)
  show ?case
  proof
    assume "p \<in> set (children_paths i (c # cs))"
    then consider "p \<in> (#) i ` set (subtree_paths c)" | "p \<in> set (children_paths (Suc i) cs)"
      by auto
    then show "\<exists>j q. p = (i + j) # q \<and> j < length (c # cs) \<and> q \<in> set (subtree_paths ((c # cs) ! j))"
    proof cases
      case 1
      then obtain q where "p = i # q" "q \<in> set (subtree_paths c)"
        by auto
      then have "p = (i + 0) # q \<and> 0 < length (c # cs) \<and> q \<in> set (subtree_paths ((c # cs) ! 0))"
        by simp
      then show ?thesis by blast
    next
      case 2
      with Cons.IH [of "Suc i"] obtain j q
        where "p = (Suc i + j) # q" "j < length cs" "q \<in> set (subtree_paths (cs ! j))"
        by auto
      then have "p = (i + Suc j) # q \<and> Suc j < length (c # cs) \<and>
          q \<in> set (subtree_paths ((c # cs) ! Suc j))"
        by simp
      then show ?thesis by blast
    qed
  next
    assume "\<exists>j q. p = (i + j) # q \<and> j < length (c # cs) \<and> q \<in> set (subtree_paths ((c # cs) ! j))"
    then obtain j q where h: "p = (i + j) # q" "j < length (c # cs)"
        "q \<in> set (subtree_paths ((c # cs) ! j))"
      by blast
    show "p \<in> set (children_paths i (c # cs))"
    proof (cases j)
      case 0
      with h show ?thesis by simp
    next
      case (Suc k)
      with h have "p = (Suc i + k) # q \<and> k < length cs \<and> q \<in> set (subtree_paths (cs ! k))"
        by simp
      then have "p \<in> set (children_paths (Suc i) cs)"
        using Cons.IH [of "Suc i"] by blast
      then show ?thesis by simp
    qed
  qed
qed

lemma subtree_paths_iff: "p \<in> set (subtree_paths el) \<longleftrightarrow> element_at el p \<noteq> None"
proof (induction p arbitrary: el)
  case Nil
  then show ?case by (cases el) simp
next
  case (Cons i p)
  obtain t c s cs where el: "el = Element t c s cs"
    by (cases el)
  have "(i # p) \<in> set (subtree_paths el) \<longleftrightarrow> (i # p) \<in> set (children_paths 0 cs)"
    by (simp add: el)
  also have "\<dots> \<longleftrightarrow> i < length cs \<and> p \<in> set (subtree_paths (cs ! i))"
    by (auto simp: children_paths_iff)
  also have "\<dots> \<longleftrightarrow> element_at el (i # p) \<noteq> None"
    using Cons.IH [of "cs ! i"] by (simp add: el)
  finally show ?case .
qed

lemma querySelectorAll_iff:
  "p \<in> set (querySelectorAll el tags) \<longleftrightarrow>
     p \<noteq> [] \<and> (\<exists>x. element_at el p = Some x \<and> tagName x \<in> set tags)"
proof -
  obtain t c s cs where el: "el = Element t c s cs"
    by (cases el)
  have "set (tl (subtree_paths el)) = set (subtree_paths el) - {[]}"
    using distinct_paths(1) [of el] by (auto simp: el)
  then show ?thesis
    by (auto simp: querySelectorAll_def has_tag_def subtree_paths_iff split: option.splits)
qed

lemma querySelector_Some:
  "querySelector el tags = Some q \<Longrightarrow> q \<noteq> [] \<and> has_tag el tags q"
proof -
  assume "querySelector el tags = Some q"
  then have "q \<in> set (querySelectorAll el tags)"
    by (auto simp: querySelector_def querySelectorAll_def find_Some_iff)
  then show ?thesis
    by (auto simp: querySelectorAll_iff has_tag_def)
qed

lemma element_at_append:
  "element_at tree (p @ q) = Option.bind (element_at tree p) (\<lambda>el. element_at el q)"
  by (induction p arbitrary: tree) simp_all

lemma has_tag_append:
  "element_at tree p = Some el \<Longrightarrow> has_tag tree tags (p @ q) = has_tag el tags q"
  by (simp add: has_tag_def element_at_append)

lemma write_of_target_cases:
  assumes "write_of tree q = Some (t, g)"
  obtains (pre_inner) el q' where "element_at tree q = Some el" "tagName el = ''PRE''"
      "q' \<noteq> []" "has_tag el [''CODE''] q'" "t = q @ q'"
    | (pre_self) el where "element_at tree q = Some el" "tagName el = ''PRE''" "t = q"
    | (code) el where "element_at tree q = Some el" "tagName el = ''CODE''"
      "\<not> has_tag tree [''PRE''] (butlast q)" "t = q"
proof -
  from assms obtain el where el: "element_at tree q = Some el"
    by (auto simp: write_of_def split: option.splits)
  show thesis
  proof (cases "tagName el = ''PRE''")
    case True
    show ?thesis
    proof (cases "querySelector el [''CODE'']")
      case None
      with assms el True have "t = q"
        by (simp add: write_of_def)
      with el True show ?thesis by (rule pre_self)
    next
      case (Some q')
      with assms el True have "t = q @ q'"
        by (simp add: write_of_def)
      with querySelector_Some [OF Some] el True show ?thesis
        by (intro pre_inner) auto
    qed
  next
    case False
    with assms el have "tagName el = ''CODE''" "\<not> has_tag tree [''PRE''] (butlast q)" "t = q"
      by (auto simp: write_of_def split: if_splits)
    with el show ?thesis by (rule code)
  qed
qed

lemma processCodeBlocks_run: "processCodeBlocks content = run_blocks (querySelectorAll content [''PRE'', ''CODE'']) content"
  by (simp add: processCodeBlocks_def run_blocks_def)

lemma processCodeBlocks_code_child:
  assumes el: "element_at content p = Some el" and p: "p \<noteq> []" and tag: "tagName el = ''PRE''"
    and child: "querySelector el [''CODE''] = Some [i]"
    and top: "\<forall>q. strict_prefix q p \<longrightarrow> \<not> has_tag content [''PRE''] q"
  shows "\<exists>c s. attrs_at content (p @ [i]) = Some (c, s) \<and>
           attrs_at (processCodeBlocks content) (p @ [i]) =
             Some (''prettyprint lang-'' @ language_of c, ''pre'')"
proof -
  let ?ps = "querySelectorAll content [''PRE'', ''CODE'']"
  let ?r = "p @ [i]"
  let ?f = "\<lambda>cls. ''prettyprint lang-'' @ language_of cls"
  have code: "has_tag content [''CODE''] ?r"
    using querySelector_Some [OF child] el by (simp add: has_tag_append)
  then obtain c s where attrs: "attrs_at content ?r = Some (c, s)"
    by (auto simp: has_tag_def attrs_at_def split: option.splits)
  have pre: "has_tag content [''PRE''] p"
    using el tag by (simp add: has_tag_def)
  have mem: "p \<in> set ?ps"
    using el p tag by (simp add: querySelectorAll_iff)
  have own: "write_of content p = Some (?r, ?f)"
    using el tag child by (simp add: write_of_def)
  have others: "\<forall>q\<in>set ?ps. q \<noteq> p \<longrightarrow> (\<forall>t g. write_of content q = Some (t, g) \<longrightarrow> t \<noteq> ?r)"
  proof (intro ballI impI allI)
    fix q t g
    assume q: "q \<noteq> p" and w: "write_of content q = Some (t, g)"
    from w show "t \<noteq> ?r"
    proof (cases rule: write_of_target_cases)
      case (pre_inner x q')
      show ?thesis
      proof
        assume "t = ?r"
        with pre_inner have eq: "q @ q' = p @ [i]" by simp
        with \<open>q' \<noteq> []\<close> have "prefix q p"
          by (metis append_butlast_last_id butlast_append butlast_snoc prefixI)
        with q have "strict_prefix q p" by (simp add: strict_prefix_def)
        moreover have "has_tag content [''PRE''] q"
          using pre_inner by (simp add: has_tag_def)
        ultimately show False using top by blast
      qed
    next
      case (pre_self x)
      show ?thesis
      proof
        assume "t = ?r"
        with pre_self have "has_tag content [''PRE''] ?r" by (simp add: has_tag_def)
        with code show False by (auto simp: has_tag_def split: option.splits)
      qed
    next
      case (code x)
      show ?thesis
      proof
        assume "t = ?r"
        with code have "\<not> has_tag content [''PRE''] (butlast ?r)" by simp
        with pre show False by simp
      qed
    qed
  qed
  from run_blocks_written_once [OF distinct_querySelectorAll mem own others] attrs
  show ?thesis
    by (simp add: processCodeBlocks_run)
qed

lemma processCodeBlocks_pre_without_code:
  assumes el: "element_at content p = Some el" and p: "p \<noteq> []" and tag: "tagName el = ''PRE''"
    and none: "querySelector el [''CODE''] = None"
  shows "attrs_at (processCodeBlocks content) p =
           Some (''prettyprint lang-'' @ language_of (className el), ''pre'')"
proof -
  let ?ps = "querySelectorAll content [''PRE'', ''CODE'']"
  let ?f = "\<lambda>cls. ''prettyprint lang-'' @ language_of cls"
  have mem: "p \<in> set ?ps"
    using el p tag by (simp add: querySelectorAll_iff)
  have own: "write_of content p = Some (p, ?f)"
    using el tag none by (simp add: write_of_def)
  have others: "\<forall>q\<in>set ?ps. q \<noteq> p \<longrightarrow> (\<forall>t g. write_of content q = Some (t, g) \<longrightarrow> t \<noteq> p)"
  proof (intro ballI impI allI)
    fix q t g
    assume q: "q \<noteq> p" and w: "write_of content q = Some (t, g)"
    from w show "t \<noteq> p"
    proof (cases rule: write_of_target_cases)
      case (pre_inner x q')
      show ?thesis
      proof
        assume "t = p"
        with pre_inner have "has_tag content [''CODE''] p"
          by (simp add: has_tag_append)
        with el tag show False by (simp add: has_tag_def)
      qed
    next
      case (pre_self x)
      with q show ?thesis by simp
    next
      case (code x)
      with q show ?thesis by simp
    qed
  qed
  from run_blocks_written_once [OF distinct_querySelectorAll mem own others] el
  show ?thesis
    by (simp add: processCodeBlocks_run attrs_at_def)
qed

lemma processCodeBlocks_inline:
  assumes el: "element_at content r = Some el" and r: "r \<noteq> []" and tag: "tagName el = ''CODE''"
    and top: "\<forall>q. strict_prefix q r \<longrightarrow> \<not> has_tag content [''PRE''] q"
  shows "attrs_at (processCodeBlocks content) r = Some (''inline'', ''pre'')"
proof -
  let ?ps = "querySelectorAll content [''PRE'', ''CODE'']"
  have mem: "r \<in> set ?ps"
    using el r tag by (simp add: querySelectorAll_iff)
  have "strict_prefix (butlast r) r"
    using r by (metis append_butlast_last_id not_Cons_self2 prefixI self_append_conv
        strict_prefix_def)
  with top have "\<not> has_tag content [''PRE''] (butlast r)"
    by blast
  then have own: "write_of content r = Some (r, \<lambda>cls. ''inline'')"
    using el tag by (simp add: write_of_def)
  have others: "\<forall>q\<in>set ?ps. q \<noteq> r \<longrightarrow> (\<forall>t g. write_of content q = Some (t, g) \<longrightarrow> t \<noteq> r)"
  proof (intro ballI impI allI)
    fix q t g
    assume q: "q \<noteq> r" and w: "write_of content q = Some (t, g)"
    from w show "t \<noteq> r"
    proof (cases rule: write_of_target_cases)
      case (pre_inner x q')
      show ?thesis
      proof
        assume "t = r"
        with pre_inner have "strict_prefix q r"
          by (auto simp: strict_prefix_def)
        moreover have "has_tag content [''PRE''] q"
          using pre_inner by (simp add: has_tag_def)
        ultimately show False using top by blast
      qed
    next
      case (pre_self x)
      with q show ?thesis by simp
    next
      case (code x)
      with q show ?thesis by simp
    qed
  qed
  from run_blocks_written_once [OF distinct_querySelectorAll mem own others] el
  show ?thesis
    by (simp add: processCodeBlocks_run attrs_at_def)
qed

text \<open>
  C5 fails at a \<open>code\<close> element that lies inside a \<open>pre\<close> but is not its child: the \<open>pre\<close>
  gives it the class \<open>prettyprint lang-python\<close>, then its own turn in the \<open>forEach\<close> finds a
  parent that is no \<open>pre\<close> and overwrites the class with \<open>inline\<close>.
\<close>

theorem processCodeBlocks_nested_code_inline:
  "processCodeBlocks nested_code_block =
     Element ''DIV'' ''manual-content'' ''''
       [Element ''PRE'' '''' '''' [Element ''SPAN'' '''' '''' [Element ''CODE'' ''inline'' ''pre'' []]]]"
  by (simp add: processCodeBlocks_def nested_code_block_def querySelectorAll_def querySelector_def
      has_tag_def process_element_def set_class_def Let_def)

section \<open>Properties of the pipeline\<close>

lemma saveToCache_effects:
  "extracted (saveToCache e cfg w url d) = extracted w \<and>
   output_writes cfg (saveToCache e cfg w url d) = output_writes cfg w"
  by (simp add: saveToCache_def writeFile_def output_writes_def outside_cache_def getCacheKey_def
      path_join_def)

lemma output_writes_record_call: "output_writes cfg (record_call c w) = output_writes cfg w"
  by (simp add: output_writes_def record_call_def)

lemma extracted_record_call: "extracted (record_call c w) = extracted w"
  by (simp add: record_call_def)

lemma fetch_content_effects:
  "fetch_content e cfg page w url title = (r, w') \<Longrightarrow>
     extracted w' = extracted w \<and> output_writes cfg w' = output_writes cfg w"
  by (auto simp: fetch_content_def Let_def saveToCache_effects output_writes_record_call
      extracted_record_call split: option.splits sum.splits bool.splits frame_result.splits)

lemma extractContent_effects:
  assumes "extractContent e cfg page w url title = (r, w')"
  shows "extracted w' = extracted w @ [(url, title)] \<and> output_writes cfg w' = output_writes cfg w"
proof -
  let ?w0 = "w\<lparr>extracted := extracted w @ [(url, title)]\<rparr>"
  have "w' = ?w0 \<or> fetch_content e cfg page ?w0 url title = (r, w')"
    using assms by (auto simp: extractContent_def Let_def split: sum.splits if_splits)
  then show ?thesis
    by (auto dest: fetch_content_effects simp: output_writes_def)
qed

lemma extract_pages_effects:
  "extract_pages e cfg page ls docs w = (Inr documentation, w') \<Longrightarrow>
     extracted w' = extracted w @ map (\<lambda>l. (link_url l, link_text l)) ls \<and>
     output_writes cfg w' = output_writes cfg w \<and>
     map doc_title documentation = map doc_title docs @ map link_text ls \<and>
     map doc_section documentation =
       map doc_section docs @
       map (\<lambda>l. if link_section l = [] then ''Reference'' else link_section l) ls"
proof (induction ls arbitrary: docs w)
  case Nil
  then show ?case by simp
next
  case (Cons l ls)
  obtain r w1 where step: "extractContent e cfg page w (link_url l) (link_text l) = (r, w1)"
    by (cases "extractContent e cfg page w (link_url l) (link_text l)")
  with Cons.prems obtain content where r: "r = Inr content"
    by (cases r) auto
  from Cons.prems step r have rest:
    "extract_pages e cfg page ls
       (docs @ [\<lparr>doc_title = link_text l, doc_content = content_property e content,
                 doc_section = (if link_section l = [] then ''Reference'' else link_section l)\<rparr>]) w1
     = (Inr documentation, w')"
    by simp
  from Cons.IH [OF rest] extractContent_effects [OF step] show ?case
    by simp
qed

lemma links_attempt_effects:
  "links_attempt cfg page w = (r, w1) \<Longrightarrow>
     extracted w1 = extracted w \<and> written w1 = written w \<and> files w1 = files w"
  by (auto simp: links_attempt_def record_call_def Let_def split: option.splits sum.splits)

lemma extractLinks_effects:
  assumes "extractLinks cfg page w = (r, attempts, w')"
  shows "extracted w' = extracted w \<and> written w' = written w"
proof -
  obtain r1 v1 where a1: "links_attempt cfg page w = (r1, v1)"
    by (cases "links_attempt cfg page w")
  obtain r2 v2 where a2: "links_attempt cfg page (v1\<lparr>sleeps := sleeps v1 @ [1000]\<rparr>) = (r2, v2)"
    by (cases "links_attempt cfg page (v1\<lparr>sleeps := sleeps v1 @ [1000]\<rparr>)")
  from links_attempt_effects [OF a1] links_attempt_effects [OF a2]
  have "extracted v1 = extracted w \<and> written v1 = written w \<and>
        extracted v2 = extracted w \<and> written v2 = written w"
    by simp
  moreover have "w' = v1 \<or> w' = v2"
    using assms a1 a2 by (auto simp: extractLinks_unfold split: sum.splits if_splits)
  ultimately show ?thesis
    by auto
qed

lemma generateHTML_ok:
  "reduce_sections [] documentation = Inr sections \<Longrightarrow> \<exists>html. generateHTML cfg documentation = Inr html"
  by (simp add: generateHTML_def generateBody_def generateTableOfContents_def toc_sections_def)


lemma Reference_not_inherited: "''Reference'' \<notin> set object_prototype_keys"
  by (simp add: object_prototype_keys_def)

text \<open>
  In reduced mode with page limit \<open>N\<close>, a run in which discovery returns \<open>links\<close>, no stage
  fails and no section label among the first \<open>N\<close> links is a property every object inherits
  calls \<open>extractContent\<close> for exactly the first \<open>min N (length links)\<close> links, in discovery
  order, assembles one record for each, and writes exactly one file outside the cache
  directory, the output document.
\<close>

lemma scrapeDocumentation_dev_mode:
  assumes dev: "DEV_MODE cfg"
    and page: "testPage \<or> launch_fails e = None"
    and cache_dir: "\<not> mkdir_fails e (CACHE_DIR cfg)"
    and links: "extractLinks cfg page w = (Inr (Some links), attempts, w1)"
    and pages: "extract_pages e cfg page (take (DEV_PAGE_LIMIT cfg) links) [] w1 = (Inr documentation, w2)"
    and labels: "\<forall>l\<in>set (take (DEV_PAGE_LIMIT cfg) links). link_section l \<notin> set object_prototype_keys"
    and out_dir: "\<not> mkdir_fails e (OUTPUT_DIR cfg)"
    and out_file: "\<not> writeFile_fails e (path_join (OUTPUT_DIR cfg) ''index.html'')"
    and outside: "outside_cache cfg (path_join (OUTPUT_DIR cfg) ''index.html'')"
  shows "\<exists>w' html. scrapeDocumentation e cfg False testPage page w = (Inr (), w') \<and>
           generateHTML cfg documentation = Inr html \<and>
           map doc_title documentation = map link_text (take (DEV_PAGE_LIMIT cfg) links) \<and>
           extracted w' =
             extracted w @ map (\<lambda>l. (link_url l, link_text l)) (take (DEV_PAGE_LIMIT cfg) links) \<and>
           length (extracted w') = length (extracted w) + min (DEV_PAGE_LIMIT cfg) (length links) \<and>
           output_writes cfg w' = output_writes cfg w @ [path_join (OUTPUT_DIR cfg) ''index.html''] \<and>
           files w' (path_join (OUTPUT_DIR cfg) ''index.html'') = Data html"
proof -
  let ?out = "path_join (OUTPUT_DIR cfg) ''index.html''"
  let ?ls = "take (DEV_PAGE_LIMIT cfg) links"
  have e2: "extracted w2 = extracted w1 @ map (\<lambda>l. (link_url l, link_text l)) ?ls \<and>
      output_writes cfg w2 = output_writes cfg w1 \<and>
      map doc_title documentation = map link_text ?ls \<and>
      map doc_section documentation =
        map (\<lambda>l. if link_section l = [] then ''Reference'' else link_section l) ?ls"
    using extract_pages_effects [OF pages] by simp
  have "\<forall>s\<in>set (map doc_section documentation). s \<noteq> [] \<and> s \<notin> set object_prototype_keys"
    using e2 labels Reference_not_inherited by auto
  then have "\<forall>d\<in>set documentation. section_of d \<notin> set object_prototype_keys"
    by (auto simp: section_of_def)
  then have "reduce_sections [] documentation = Inr (foldl add_doc [] documentation)"
    by (rule reduce_sections_foldl)
  then obtain html where html: "generateHTML cfg documentation = Inr html"
    using generateHTML_ok by blast
  let ?w4 = "w2\<lparr>files := (files w2)(?out := Data html), written := written w2 @ [?out]\<rparr>"
  have body: "scrape_pages e cfg page w = (Inr (), ?w4)"
    using dev links pages html out_dir out_file
    by (simp add: scrape_pages_def pagesToProcess_def mkdir_def writeFile_def)
  have e1: "extracted w1 = extracted w \<and> written w1 = written w"
    using links by (rule extractLinks_effects)
  have e4: "extracted ?w4 = extracted w @ map (\<lambda>l. (link_url l, link_text l)) ?ls \<and>
      output_writes cfg ?w4 = output_writes cfg w @ [?out] \<and> files ?w4 ?out = Data html"
    using e1 e2 outside by (simp add: output_writes_def)
  have run: "scrapeDocumentation e cfg False testPage page w = (Inr (), ?w4) \<or>
      scrapeDocumentation e cfg False testPage page w = (Inr (), ?w4\<lparr>closed := True\<rparr>)"
    using page cache_dir body
    by (auto simp: scrapeDocumentation_def initializeCache_def mkdir_def)
  from run e4 e2 html show ?thesis
    by (auto simp: output_writes_def)
qed

lemma getFromCache_same_files:
  "files w' = files w \<Longrightarrow> getFromCache e cfg w' url = getFromCache e cfg w url"
  by (simp add: getFromCache_def getFromCache_try_def readFile_def)

lemma extract_pages_cached:
  assumes "\<forall>l\<in>set ls. getFromCache e cfg w (link_url l) = Inr (JObj props)"
  shows "\<exists>w'. extract_pages e cfg page ls docs w =
            (Inr (docs @ map (\<lambda>l. doc_of e l (JObj props)) ls), w') \<and> files w' = files w"
  using assms
proof (induction ls arbitrary: docs w)
  case Nil
  then show ?case by simp
next
  case (Cons l ls)
  let ?w0 = "w\<lparr>extracted := extracted w @ [(link_url l, link_text l)]\<rparr>"
  have hit: "getFromCache e cfg ?w0 (link_url l) = Inr (JObj props)"
    using Cons.prems by (simp add: getFromCache_extracted)
  then have step: "extractContent e cfg page w (link_url l) (link_text l) = (Inr (JObj props), ?w0)"
    by (simp add: extractContent_def Let_def)
  have "\<forall>k\<in>set ls. getFromCache e cfg ?w0 (link_url k) = Inr (JObj props)"
    using Cons.prems by (simp add: getFromCache_extracted)
  from Cons.IH [OF this, of "docs @ [doc_of e l (JObj props)]"] step show ?case
    by (simp add: doc_of_def)
qed


text \<open>
  The instance of the test suite: 20 discovered links, limit 10, every page cached.
\<close>

lemma scrapeDocumentation_dev_mode_example:
  "\<exists>w'. scrapeDocumentation example_env dev_config False True
           (working_browser (replicate 20 test_link)) cached_world = (Inr (), w') \<and>
         length (extracted w') = 10 \<and>
         output_writes dev_config w' = [''docs/index.html'']"
proof -
  let ?links = "replicate 20 test_link"
  let ?page = "working_browser ?links"
  let ?d = "doc_of example_env test_link example_page"
  have dev: "DEV_MODE dev_config" and limit: "DEV_PAGE_LIMIT dev_config = 10"
    by (simp_all add: dev_config_def default_config_def)
  have cache_dir: "\<not> mkdir_fails example_env (CACHE_DIR dev_config)"
    and out_dir: "\<not> mkdir_fails example_env (OUTPUT_DIR dev_config)"
    and out_file: "\<not> writeFile_fails example_env (path_join (OUTPUT_DIR dev_config) ''index.html'')"
    by (simp_all add: example_env_def)
  have out: "path_join (OUTPUT_DIR dev_config) ''index.html'' = ''docs/index.html''"
    by (simp add: path_join_def dev_config_def default_config_def)
  have outside: "outside_cache dev_config (path_join (OUTPUT_DIR dev_config) ''index.html'')"
    by (simp add: outside_cache_def path_join_def dev_config_def default_config_def)
  have labels: "\<forall>l\<in>set (take (DEV_PAGE_LIMIT dev_config) ?links).
      link_section l \<notin> set object_prototype_keys"
    by (simp add: limit test_link_def object_prototype_keys_def)
  obtain r a w1 where links0: "extractLinks dev_config ?page cached_world = (r, a, w1)"
    by (cases "extractLinks dev_config ?page cached_world")
  have r: "r = Inr (Some ?links)" and w1: "files w1 = files cached_world"
    using links0
    by (auto simp: extractLinks_unfold links_attempt_def working_browser_def record_call_def)
  have links: "extractLinks dev_config ?page cached_world = (Inr (Some ?links), a, w1)"
    using links0 r by simp
  have "getFromCache example_env dev_config cached_world (link_url test_link) = Inr example_page"
    by (simp add: getFromCache_def getFromCache_try_def readFile_def cached_world_def
        empty_world_def example_env_def dev_config_def default_config_def)
  then have "getFromCache example_env dev_config w1 (link_url test_link) = Inr example_page"
    using getFromCache_same_files [OF w1, of example_env dev_config "link_url test_link"] by simp
  then have cached: "\<forall>l\<in>set (take 10 ?links).
      getFromCache example_env dev_config w1 (link_url l) =
        Inr (JObj [(''title'', JStr ''Cached Page''), (''content'', JStr ''<div>Cached content</div>''),
                   (''hasMalformedHTML'', JBool False)])"
    by (simp add: example_page_def)
  from extract_pages_cached [OF cached, of ?page "[]"]
  obtain w2 where pages: "extract_pages example_env dev_config ?page
      (take (DEV_PAGE_LIMIT dev_config) ?links) [] w1 = (Inr (replicate 10 ?d), w2)"
    by (auto simp: limit example_page_def map_replicate_const)
  have page: "True \<or> launch_fails example_env = None"
    by simp
  from scrapeDocumentation_dev_mode [OF dev page cache_dir links pages labels out_dir out_file outside]
  obtain w' where run: "scrapeDocumentation example_env dev_config False True ?page cached_world = (Inr (), w')"
    and len: "length (extracted w') =
        length (extracted cached_world) + min (DEV_PAGE_LIMIT dev_config) (length ?links)"
    and ow: "output_writes dev_config w' =
        output_writes dev_config cached_world @ [path_join (OUTPUT_DIR dev_config) ''index.html'']"
    by blast
  have "length (extracted w') = 10"
    using len by (simp add: limit cached_world_def empty_world_def)
  moreover have "output_writes dev_config w' = [''docs/index.html'']"
    using ow by (simp add: out output_writes_def cached_world_def empty_world_def)
  ultimately show ?thesis
    using run by blast
qed

text \<open>
  C7 fails in reduced mode at one discovered link whose section is \<open>constructor\<close>, with a
  browser session and a file system that never fail: the page is extracted (navigation,
  frame evaluation, cache write), then \<open>generateHTML\<close> throws the \<open>TypeError\<close> of
  \<open>generateTableOfContents\<close> and the run ends without writing the output file.
\<close>

theorem scrapeDocumentation_inherited_section_no_output:
  "fst (scrapeDocumentation example_env dev_config False True (working_browser [constructor_link])
          empty_world) = Inl (TypeError ''acc[section].push is not a function'') \<and>
   extracted (snd (scrapeDocumentation example_env dev_config False True
          (working_browser [constructor_link]) empty_world))
     = [(''https://threejs.org/docs/#api/en/Test'', ''Test Page'')] \<and>
   calls (snd (scrapeDocumentation example_env dev_config False True
          (working_browser [constructor_link]) empty_world))
     = [Goto ''https://threejs.org/docs/index.html#manual/en/introduction/Creating-a-scene'',
        WaitForSelector ''#panel'', Evaluate,
        Goto ''https://threejs.org/docs/#api/en/Test'', WaitForSelector ''iframe'', Query ''iframe'',
        ContentFrame, FrameWaitForSelector ''body'', FrameEvaluate] \<and>
   output_writes dev_config (snd (scrapeDocumentation example_env dev_config False True
          (working_browser [constructor_link]) empty_world)) = [] \<and>
   files (snd (scrapeDocumentation example_env dev_config False True
          (working_browser [constructor_link]) empty_world)) ''docs/index.html'' = Missing"
proof -
  let ?page = "working_browser [constructor_link]"
  let ?url = "''https://threejs.org/docs/#api/en/Test''"
  let ?key = "''.cache/0cc175b9c0f1b6a831c399e269772661_v1.json''"
  let ?result = "JObj [(''title'', JStr ''Test Page''), (''content'', JStr ''<div>Test content</div>''),
                       (''hasMalformedHTML'', JBool False)]"
  let ?calls = "[Goto ''https://threejs.org/docs/index.html#manual/en/introduction/Creating-a-scene'',
        WaitForSelector ''#panel'', Evaluate,
        Goto ?url, WaitForSelector ''iframe'', Query ''iframe'',
        ContentFrame, FrameWaitForSelector ''body'', FrameEvaluate]"
  let ?w1 = "empty_world\<lparr>calls := take 3 ?calls\<rparr>"
  let ?w2 = "empty_world\<lparr>calls := ?calls, extracted := [(?url, ''Test Page'')],
               files := (files empty_world)(?key := Data ''{}''), written := [?key]\<rparr>"
  let ?d = "\<lparr>doc_title = ''Test Page'', doc_content = ''<div>Test content</div>'',
             doc_section = ''constructor''\<rparr>"
  have links: "extractLinks dev_config ?page empty_world = (Inr (Some [constructor_link]), 0, ?w1)"
    by (simp add: extractLinks_unfold links_attempt_def working_browser_def record_call_def
        dev_config_def default_config_def empty_world_def)
  have miss: "getFromCache example_env dev_config
        (?w1\<lparr>extracted := extracted ?w1 @ [(?url, ''Test Page'')]\<rparr>) ?url = Inr JNull"
    by (simp add: getFromCache_def getFromCache_try_def readFile_def empty_world_def)
  have hm: "\<not> hasMalformedHTML ''<div>Test content</div>''"
    by (simp add: hasMalformedHTML_def malformedPatterns_def)
  have page1: "extractContent example_env dev_config ?page ?w1 ?url ''Test Page'' = (Inr ?result, ?w2)"
    using miss hm
    by (simp add: extractContent_def fetch_content_def working_browser_def record_call_def
        saveToCache_def writeFile_def getCacheKey_def path_join_def example_env_def
        example_page_def dev_config_def default_config_def empty_world_def Let_def)
  have pages: "extract_pages example_env dev_config ?page (pagesToProcess dev_config [constructor_link])
        [] ?w1 = (Inr [?d], ?w2)"
    using page1
    by (simp add: pagesToProcess_def dev_config_def default_config_def constructor_link_def
        content_property_def)
  have html: "generateHTML dev_config [?d] = Inl (TypeError ''acc[section].push is not a function'')"
    by (simp add: generateHTML_def generateBody_def generateTableOfContents_def toc_sections_def
        reduce_step_def get_property_def object_prototype_keys_def section_of_def Let_def)
  have "scrape_pages example_env dev_config ?page empty_world
      = (Inl (TypeError ''acc[section].push is not a function''), ?w2)"
    using links pages html by (simp add: scrape_pages_def)
  then have run: "scrapeDocumentation example_env dev_config False True ?page empty_world
      = (Inl (TypeError ''acc[section].push is not a function''), ?w2)"
    by (simp add: scrapeDocumentation_def initializeCache_def mkdir_def example_env_def)
  show ?thesis
    unfolding run
    by (simp add: output_writes_def outside_cache_def dev_config_def default_config_def
        empty_world_def)
qed


end
